theory Spec2Isabelle
  imports Complex_Main
begin

section \<open>Numbers, strings and errors\<close>

text \<open>
  The program is a Python script (\<^verbatim>\<open>app.py\<close>). Its numbers are Python ints and
  floats; they are modelled as exact reals, so every theorem below is about the
  arithmetic the code writes down, not about binary rounding, with one exception: the
  quotient whose ceiling is the number of furnaces of a cascade is rounded to a double
  (\<open>round_double\<close> below), because there the rounding decides an integer. A Python \<^verbatim>\<open>str\<close> is a
  sequence of Unicode code points and is modelled as the list of these code points. Every
  exception the modelled code can raise is a value of \<open>py_error\<close>, and a computation that
  may raise returns \<open>py_error + 'a\<close>.
\<close>

type_synonym py_str = "nat list"

datatype py_error = ZeroDivisionError | KeyError | ValueError | StopIteration

definition bind :: "py_error + 'a \<Rightarrow> ('a \<Rightarrow> py_error + 'b) \<Rightarrow> py_error + 'b" where
  "bind r f = (case r of Inl e \<Rightarrow> Inl e | Inr v \<Rightarrow> f v)"

text \<open>\<^verbatim>\<open>a / b\<close> on numbers: raises on a zero divisor.\<close>

definition py_div :: "real \<Rightarrow> real \<Rightarrow> py_error + real" where
  "py_div a b = (if b = 0 then Inl ZeroDivisionError else Inr (a / b))"

text \<open>\<^verbatim>\<open>d[k]\<close> on a dict, kept as an association list in source order.\<close>

definition py_getitem :: "('k \<times> 'v) list \<Rightarrow> 'k \<Rightarrow> py_error + 'v" where
  "py_getitem d k = (case map_of d k of None \<Rightarrow> Inl KeyError | Some v \<Rightarrow> Inr v)"

text \<open>\<^verbatim>\<open>d.get(k, default)\<close>.\<close>

definition py_get :: "('k \<times> 'v) list \<Rightarrow> 'k \<Rightarrow> 'v \<Rightarrow> 'v" where
  "py_get d k dflt = (case map_of d k of None \<Rightarrow> dflt | Some v \<Rightarrow> v)"

text \<open>\<^verbatim>\<open>math.sqrt\<close>: raises on a negative argument.\<close>

definition py_sqrt :: "real \<Rightarrow> py_error + real" where
  "py_sqrt x = (if x < 0 then Inl ValueError else Inr (sqrt x))"

text \<open>\<^verbatim>\<open>int(x)\<close> on a number truncates towards zero.\<close>

definition py_int :: "real \<Rightarrow> int" where
  "py_int x = (if 0 \<le> x then \<lfloor>x\<rfloor> else \<lceil>x\<rceil>)"

text \<open>\<^verbatim>\<open>range(n)\<close>: the integers from 0 below \<open>n\<close>, none when \<open>n \<le> 0\<close>.\<close>

definition py_range :: "int \<Rightarrow> int list" where
  "py_range n = [0..n - 1]"

section \<open>Constants and engineering data\<close>

text \<open>
  The keys of the tables are Russian words; each is written as its code points, with a
  transliteration beside it.
\<close>

definition Kirpich :: py_str where \<comment> \<open>brick\<close>
  "Kirpich = [0x41A, 0x438, 0x440, 0x43F, 0x438, 0x447]"

definition Gazoblok :: py_str where \<comment> \<open>aerated concrete block\<close>
  "Gazoblok = [0x413, 0x430, 0x437, 0x43E, 0x431, 0x43B, 0x43E, 0x43A]"

definition Derevo_brus :: py_str where \<comment> \<open>"Derevo (brus)", timber\<close>
  "Derevo_brus = [0x414, 0x435, 0x440, 0x435, 0x432, 0x43E, 0x20, 0x28, 0x431, 0x440,
     0x443, 0x441, 0x29]"

definition Sendvich_panel :: py_str where \<comment> \<open>"Sendvich-panel'", sandwich panel\<close>
  "Sendvich_panel = [0x421, 0x44D, 0x43D, 0x434, 0x432, 0x438, 0x447, 0x2D, 0x43F, 0x430,
     0x43D, 0x435, 0x43B, 0x44C]"

definition Mineralnaya_vata :: py_str where \<comment> \<open>"Mineral'naya vata", mineral wool\<close>
  "Mineralnaya_vata = [0x41C, 0x438, 0x43D, 0x435, 0x440, 0x430, 0x43B, 0x44C, 0x43D,
     0x430, 0x44F, 0x20, 0x432, 0x430, 0x442, 0x430]"

definition OSB :: py_str where
  "OSB = [0x4F, 0x53, 0x42]"

definition Profnastil_stal :: py_str where \<comment> \<open>"Profnastil (stal')", steel sheeting\<close>
  "Profnastil_stal = [0x41F, 0x440, 0x43E, 0x444, 0x43D, 0x430, 0x441, 0x442, 0x438,
     0x43B, 0x20, 0x28, 0x441, 0x442, 0x430, 0x43B, 0x44C, 0x29]"

definition Mineralnaya_vata_s_obshivkoy :: py_str where
  \<comment> \<open>"Mineral'naya vata s obshivkoy", mineral wool with cladding: the composite wall\<close>
  "Mineralnaya_vata_s_obshivkoy = [0x41C, 0x438, 0x43D, 0x435, 0x440, 0x430, 0x43B, 0x44C,
     0x43D, 0x430, 0x44F, 0x20, 0x432, 0x430, 0x442, 0x430, 0x20, 0x441, 0x20, 0x43E,
     0x431, 0x448, 0x438, 0x432, 0x43A, 0x43E, 0x439]"

definition MATERIALS :: "(py_str \<times> real) list" where
  "MATERIALS =
    [(Kirpich, 0.81),
     (Gazoblok, 0.12),
     (Derevo_brus, 0.18),
     (Sendvich_panel, 0.04),
     (Mineralnaya_vata, 0.045),
     (OSB, 0.13),
     (Profnastil_stal, 58.0)]"

definition R_SI :: real where
  "R_SI = 0.13"

definition R_SE :: real where
  "R_SE = 0.04"

definition Musson_300 :: py_str where
  "Musson_300 = [0x41C, 0x443, 0x441, 0x441, 0x43E, 0x43D, 0x20, 0x33, 0x30, 0x30]"

definition Musson_600 :: py_str where
  "Musson_600 = [0x41C, 0x443, 0x441, 0x441, 0x43E, 0x43D, 0x20, 0x36, 0x30, 0x30]"

definition Musson_1000 :: py_str where
  "Musson_1000 = [0x41C, 0x443, 0x441, 0x441, 0x43E, 0x43D, 0x20, 0x31, 0x30, 0x30, 0x30]"

definition Musson_1500 :: py_str where
  "Musson_1500 = [0x41C, 0x443, 0x441, 0x441, 0x43E, 0x43D, 0x20, 0x31, 0x35, 0x30, 0x30]"

definition Musson_2000 :: py_str where
  "Musson_2000 = [0x41C, 0x443, 0x441, 0x441, 0x43E, 0x43D, 0x20, 0x32, 0x30, 0x30, 0x30]"

record furnace_params =
  volume_l :: real
  duct_count :: nat
  duct_diameter_mm :: real

definition MUSSON_MODELS :: "(py_str \<times> furnace_params) list" where
  "MUSSON_MODELS =
    [(Musson_300,  \<lparr>volume_l = 77,  duct_count = 2, duct_diameter_mm = 133\<rparr>),
     (Musson_600,  \<lparr>volume_l = 125, duct_count = 3, duct_diameter_mm = 133\<rparr>),
     (Musson_1000, \<lparr>volume_l = 200, duct_count = 3, duct_diameter_mm = 133\<rparr>),
     (Musson_1500, \<lparr>volume_l = 311, duct_count = 4, duct_diameter_mm = 133\<rparr>),
     (Musson_2000, \<lparr>volume_l = 467, duct_count = 4, duct_diameter_mm = 159\<rparr>)]"

definition Khvoynye :: py_str where \<comment> \<open>"Khvoynye (sosna, el')", conifers\<close>
  "Khvoynye = [0x425, 0x432, 0x43E, 0x439, 0x43D, 0x44B, 0x435, 0x20, 0x28, 0x441, 0x43E,
     0x441, 0x43D, 0x430, 0x2C, 0x20, 0x435, 0x43B, 0x44C, 0x29]"

definition Beryoza :: py_str where \<comment> \<open>birch\<close>
  "Beryoza = [0x411, 0x435, 0x440, 0x451, 0x437, 0x430]"

definition Dub :: py_str where \<comment> \<open>oak\<close>
  "Dub = [0x414, 0x443, 0x431]"

record wood_params =
  density :: real
  q_mj_kg :: real

definition WOOD_TYPES :: "(py_str \<times> wood_params) list" where
  "WOOD_TYPES =
    [(Khvoynye, \<lparr>density = 350, q_mj_kg = 17.0\<rparr>),
     (Beryoza,  \<lparr>density = 450, q_mj_kg = 18.0\<rparr>),
     (Dub,      \<lparr>density = 550, q_mj_kg = 19.5\<rparr>)]"

section \<open>Engineering calculations\<close>

subsection \<open>\<^verbatim>\<open>calculate_wall_r_value\<close>\<close>

definition calculate_wall_r_value :: "py_str \<Rightarrow> real \<Rightarrow> real \<Rightarrow> py_error + real" where
  "calculate_wall_r_value material_type wall_thickness_m min_wool_thickness_m =
     bind
       (if material_type = Mineralnaya_vata_s_obshivkoy then
          bind (py_getitem MATERIALS OSB) (\<lambda>l_osb.
          bind (py_div 0.009 l_osb) (\<lambda>r_osb.
          bind (py_getitem MATERIALS Mineralnaya_vata) (\<lambda>l_wool.
          bind (py_div min_wool_thickness_m l_wool) (\<lambda>r_wool.
          bind (py_getitem MATERIALS Profnastil_stal) (\<lambda>l_steel.
          bind (py_div 0.0005 l_steel) (\<lambda>r_steel.
          Inr (r_osb + r_wool + r_steel)))))))
        else
          (let lambda_wall = py_get MATERIALS material_type 0.81
           in py_div wall_thickness_m lambda_wall))
       (\<lambda>r_layers. Inr (R_SI + r_layers + R_SE))"

subsection \<open>\<^verbatim>\<open>calculate_heat_loss\<close>\<close>

definition calculate_heat_loss ::
  "real \<Rightarrow> real \<Rightarrow> real \<Rightarrow> real \<Rightarrow> real \<Rightarrow> real \<Rightarrow> real \<Rightarrow> py_error + real" where
  "calculate_heat_loss area height wall_r_value floor_r_value ceiling_r_value t_in t_out =
     (let delta_t = t_in - t_out in
      if delta_t \<le> 0 then Inr 0
      else
        bind (py_sqrt area) (\<lambda>s.
        let perimeter = 2 * (s + s);
            wall_area = perimeter * height;
            floor_area = area;
            ceiling_area = area
        in
        bind (py_div (wall_area * delta_t) wall_r_value) (\<lambda>q_walls.
        bind (py_div (floor_area * delta_t) floor_r_value) (\<lambda>q_floor.
        bind (py_div (ceiling_area * delta_t) ceiling_r_value) (\<lambda>q_ceiling.
        let total_q_w = q_walls + q_floor + q_ceiling
        in Inr (total_q_w / 1000))))))"

subsection \<open>\<^verbatim>\<open>get_furnace_power_curve\<close>\<close>

text \<open>The loop of lines 104 to 107: one sample per time point, in order; the first
  failing division ends it.\<close>

fun power_loop :: "real \<Rightarrow> real \<Rightarrow> real list \<Rightarrow> py_error + real list" where
  "power_loop peak_power_kw burn_hours [] = Inr []"
| "power_loop peak_power_kw burn_hours (t # ts) =
     bind (py_div t burn_hours) (\<lambda>q.
     let power = peak_power_kw * (1 - q) in
     bind (power_loop peak_power_kw burn_hours ts) (\<lambda>rest.
     Inr (max 0 power # rest)))"

text \<open>The first parameter, \<^verbatim>\<open>volume_l\<close> in the source, is written \<open>volume\<close> here:
  \<open>volume_l\<close> is the field of the catalog records. The result is the triple
  \<^verbatim>\<open>(time_points, power_points, total_kwh)\<close>.\<close>

definition get_furnace_power_curve ::
  "real \<Rightarrow> real \<Rightarrow> py_str \<Rightarrow> real \<Rightarrow> real \<Rightarrow> py_error + (real list \<times> real list \<times> real)" where
  "get_furnace_power_curve volume fill_fraction wood_type efficiency burn_hours =
     (let vol_m3 = volume / 1000;
          filled_vol_m3 = vol_m3 * fill_fraction
      in
      bind (py_getitem WOOD_TYPES wood_type) (\<lambda>wood.
      let m_wood = filled_vol_m3 * density wood;
          q_fuel_mj = m_wood * q_mj_kg wood;
          total_kwh = (q_fuel_mj / 3.6) * efficiency
      in
      bind (if burn_hours > 0 then py_div total_kwh burn_hours else Inr 0) (\<lambda>avg_power_kw.
      let peak_power_kw = avg_power_kw * 2;
          time_points = map (\<lambda>i. real_of_int i * 0.5) (py_range (py_int (burn_hours * 2) + 1))
      in
      bind (power_loop peak_power_kw burn_hours time_points) (\<lambda>power_points.
      Inr (time_points, power_points, total_kwh)))))"

section \<open>The script: recommendation, cascade and refuel time\<close>

text \<open>
  After the functions, \<^verbatim>\<open>app.py\<close> is a script that reads ten inputs from widgets and
  computes the results top to bottom. The widgets, the chart and the report are not
  modelled; the script is a function of the ten values the widgets return.
\<close>

text \<open>One entry of \<^verbatim>\<open>all_models_data\<close>: a dict with the keys
  \<^verbatim>\<open>model\<close>, \<^verbatim>\<open>time\<close>, \<^verbatim>\<open>power\<close>, \<^verbatim>\<open>avg_power\<close>.\<close>

record model_data =
  d_model :: py_str
  d_time :: "real list"
  d_power :: "real list"
  d_avg_power :: real

text \<open>The three variables the loop over the catalog updates.\<close>

record selection =
  all_models_data :: "model_data list"
  recommended_model :: "py_str option"
  best_model_avg_power :: real

text \<open>Truth value of a variable that holds \<^verbatim>\<open>None\<close> or a \<^verbatim>\<open>str\<close>.\<close>

definition py_truthy :: "py_str option \<Rightarrow> bool" where
  "py_truthy v = (case v of None \<Rightarrow> False | Some s \<Rightarrow> s \<noteq> [])"

text \<open>Lines 210 to 218: the curve of one catalog model and its average power.\<close>

definition model_entry ::
  "real \<Rightarrow> py_str \<Rightarrow> real \<Rightarrow> real \<Rightarrow> py_str \<times> furnace_params \<Rightarrow> py_error + model_data" where
  "model_entry fill_fraction wood_type efficiency burn_hours item =
     (case item of (model_name, params) \<Rightarrow>
        bind (get_furnace_power_curve (volume_l params) fill_fraction wood_type efficiency
                burn_hours)
          (\<lambda>(time_pts, power_pts, total_kwh).
        bind (if burn_hours > 0 then py_div total_kwh burn_hours else Inr 0) (\<lambda>avg_power.
        Inr \<lparr>d_model = model_name, d_time = time_pts, d_power = power_pts,
             d_avg_power = avg_power\<rparr>)))"

text \<open>Lines 213 to 223: append the entry, then the choice of the best model.\<close>

definition select_step :: "real \<Rightarrow> selection \<Rightarrow> model_data \<Rightarrow> selection" where
  "select_step required_power_with_margin s entry =
     (let s1 = s\<lparr>all_models_data := all_models_data s @ [entry]\<rparr> in
      if d_avg_power entry \<ge> required_power_with_margin
         \<and> d_avg_power entry > best_model_avg_power s1
      then s1\<lparr>recommended_model := Some (d_model entry),
              best_model_avg_power := d_avg_power entry\<rparr>
      else s1)"

text \<open>The \<^verbatim>\<open>for\<close> loop of lines 209 to 223 over the items of the catalog.\<close>

fun models_loop ::
  "real \<Rightarrow> py_str \<Rightarrow> real \<Rightarrow> real \<Rightarrow> real \<Rightarrow> selection \<Rightarrow> (py_str \<times> furnace_params) list
    \<Rightarrow> py_error + selection" where
  "models_loop fill_fraction wood_type efficiency burn_hours required_power_with_margin s [] =
     Inr s"
| "models_loop fill_fraction wood_type efficiency burn_hours required_power_with_margin s
     (item # items) =
     bind (model_entry fill_fraction wood_type efficiency burn_hours item) (\<lambda>entry.
     models_loop fill_fraction wood_type efficiency burn_hours required_power_with_margin
       (select_step required_power_with_margin s entry) items)"

text \<open>\<^verbatim>\<open>max(xs, key=...)\<close>: the first element whose key is greatest; raises on an
  empty list.\<close>

fun max_loop :: "('a \<Rightarrow> real) \<Rightarrow> 'a \<Rightarrow> 'a list \<Rightarrow> 'a" where
  "max_loop key best [] = best"
| "max_loop key best (x # xs) = max_loop key (if key x > key best then x else best) xs"

definition py_max :: "('a \<Rightarrow> real) \<Rightarrow> 'a list \<Rightarrow> py_error + 'a" where
  "py_max key xs = (case xs of [] \<Rightarrow> Inl ValueError | x # rest \<Rightarrow> Inr (max_loop key x rest))"

text \<open>Rounding to the nearest integer, ties to the even one.\<close>

definition round_half_even :: "real \<Rightarrow> int" where
  "round_half_even y =
     (let f = \<lfloor>y\<rfloor>; d = y - of_int f in
      if d < 1 / 2 then f else if 1 / 2 < d then f + 1 else if even f then f else f + 1)"

text \<open>
  The double nearest to a real number: IEEE 754 binary64, round to nearest, ties to even,
  53 significant bits. The exponent range is not modelled (no overflow to infinity above
  \<open>2 ^ 1024\<close>, no subnormal numbers below \<open>2 ^ -1022\<close>). Python's \<^verbatim>\<open>a / b\<close> on two
  doubles returns \<open>round_double\<close> of the exact quotient.
\<close>

definition round_double :: "real \<Rightarrow> real" where
  "round_double x =
     (if x = 0 then 0
      else
        let e = \<lfloor>log 2 \<bar>x\<bar>\<rfloor>;
            u = 2 powr (of_int e - 52)
        in of_int (round_half_even (x / u)) * u)"

text \<open>Lines 235 to 243. The offer is the string \<^verbatim>\<open>"{num_furnaces} <pcs> x {model}"\<close>;
  the model keeps the two values it is formatted from. \<^verbatim>\<open>math.ceil\<close> is applied to the
  double that the division of line 240 returns.\<close>

definition cascade ::
  "py_str option \<Rightarrow> real \<Rightarrow> real \<Rightarrow> model_data list \<Rightarrow> py_error + (int \<times> py_str) option" where
  "cascade recommended heat_loss_kw required_power_with_margin all_data =
     (if \<not> py_truthy recommended \<and> heat_loss_kw > 0 then
        bind (py_max d_avg_power all_data) (\<lambda>most_powerful.
        if d_avg_power most_powerful > 0 then
          bind (py_div required_power_with_margin (d_avg_power most_powerful)) (\<lambda>q.
          let num_furnaces = \<lceil>round_double q\<rceil> in
          Inr (if num_furnaces > 1 then Some (num_furnaces, d_model most_powerful) else None))
        else Inr None)
      else Inr None)"

text \<open>\<^verbatim>\<open>next(item for item in all_models_data if item["model"] == recommended_model)\<close>.\<close>

definition next_model :: "model_data list \<Rightarrow> py_str \<Rightarrow> py_error + model_data" where
  "next_model all_data name =
     (case find (\<lambda>item. d_model item = name) all_data of
        None \<Rightarrow> Inl StopIteration
      | Some item \<Rightarrow> Inr item)"

text \<open>The loop of lines 252 to 257 over \<^verbatim>\<open>zip(time, power)\<close>.\<close>

fun refuel_loop :: "real \<Rightarrow> real \<Rightarrow> (real \<times> real) list \<Rightarrow> real" where
  "refuel_loop required_power_with_margin refuel [] = refuel"
| "refuel_loop required_power_with_margin refuel ((t, p) # rest) =
     (if p \<ge> required_power_with_margin
      then refuel_loop required_power_with_margin t rest
      else refuel)"

text \<open>Lines 248 to 257: \<^verbatim>\<open>refuel_time\<close> is assigned only when a model is recommended.\<close>

definition refuel :: "py_str option \<Rightarrow> real \<Rightarrow> model_data list \<Rightarrow> py_error + real option" where
  "refuel recommended required_power_with_margin all_data =
     (case recommended of
        None \<Rightarrow> Inr None
      | Some name \<Rightarrow>
          if name \<noteq> [] then
            bind (next_model all_data name) (\<lambda>rec_model_data.
            Inr (Some (refuel_loop required_power_with_margin 0
                         (zip (d_time rec_model_data) (d_power rec_model_data)))))
          else Inr None)"

record app_result =
  heat_loss_kw :: real
  required_power_with_margin :: real
  models :: selection
  cascade_option :: "(int \<times> py_str) option"
  refuel_time :: "real option"

text \<open>Lines 185 to 257.\<close>

definition app ::
  "real \<Rightarrow> real \<Rightarrow> py_str \<Rightarrow> real \<Rightarrow> real \<Rightarrow> real \<Rightarrow> py_str \<Rightarrow> real \<Rightarrow> real \<Rightarrow> real
    \<Rightarrow> py_error + app_result" where
  "app area height material_type thickness_cm t_in t_out wood_type fill_fraction efficiency
     burn_hours =
     (let wall_thickness_m = thickness_cm / 100;
          min_wool_thickness_m =
            (if material_type = Mineralnaya_vata_s_obshivkoy then thickness_cm / 100 else 0.05)
      in
      bind (calculate_wall_r_value material_type wall_thickness_m min_wool_thickness_m)
        (\<lambda>wall_r_val.
      let floor_r_val = 2.5;
          ceiling_r_val = 3.5
      in
      bind (calculate_heat_loss area height wall_r_val floor_r_val ceiling_r_val t_in t_out)
        (\<lambda>heat_loss.
      let required = heat_loss * 1.2 in
      bind (models_loop fill_fraction wood_type efficiency burn_hours required
              \<lparr>all_models_data = [], recommended_model = None, best_model_avg_power = 0\<rparr>
              MUSSON_MODELS) (\<lambda>s.
      bind (cascade (recommended_model s) heat_loss required (all_models_data s)) (\<lambda>offer.
      bind (refuel (recommended_model s) required (all_models_data s)) (\<lambda>refuel.
      Inr \<lparr>heat_loss_kw = heat_loss, required_power_with_margin = required, models = s,
           cascade_option = offer, refuel_time = refuel\<rparr>))))))"

section \<open>Notions used to state the properties\<close>

text \<open>
  The average power that lines 89 to 94 and 211 compute for a chamber volume when the burn
  duration is positive, in closed form (\<open>curve_positive_duration\<close> and
  \<open>model_entry_positive_duration\<close> below relate it to the code).
\<close>

definition model_avg_power :: "real \<Rightarrow> wood_params \<Rightarrow> real \<Rightarrow> real \<Rightarrow> real \<Rightarrow> real" where
  "model_avg_power fill_fraction wood efficiency burn_hours volume =
     volume / 1000 * fill_fraction * density wood * q_mj_kg wood / 3.6 * efficiency
       / burn_hours"

text \<open>
  The entry that lines 210 to 218 build for a catalog item when the burn duration is
  positive, in closed form: the half-hour grid up to the duration, the linear decay from
  twice the average power, cut off at 0, and the average power.
\<close>

definition model_data_of ::
  "real \<Rightarrow> wood_params \<Rightarrow> real \<Rightarrow> real \<Rightarrow> py_str \<times> furnace_params \<Rightarrow> model_data" where
  "model_data_of fill_fraction wood efficiency burn_hours item =
     (let avg = model_avg_power fill_fraction wood efficiency burn_hours (volume_l (snd item));
          grid = map (\<lambda>i. real_of_int i * 0.5) [0..\<lfloor>2 * burn_hours\<rfloor>]
      in \<lparr>d_model = fst item,
           d_time = grid,
           d_power = map (\<lambda>t. max 0 (avg * 2 * (1 - t / burn_hours))) grid,
           d_avg_power = avg\<rparr>)"

text \<open>
  The invariant of the loop over the catalog: with no model chosen, the best average is
  still 0 and no entry so far both qualifies and has a positive average; with a model
  chosen, it is the first entry whose average is the greatest among the qualifying ones.
\<close>

definition chosen :: "real \<Rightarrow> selection \<Rightarrow> bool" where
  "chosen required s =
     (let entries = all_models_data s; best = best_model_avg_power s in
      case recommended_model s of
        None \<Rightarrow>
          best = 0 \<and> (\<forall>e \<in> set entries. required \<le> d_avg_power e \<longrightarrow> d_avg_power e \<le> 0)
      | Some m \<Rightarrow>
          (\<exists>i < length entries.
             d_model (entries ! i) = m \<and> d_avg_power (entries ! i) = best
             \<and> 0 < best \<and> required \<le> best
             \<and> (\<forall>j < length entries.
                   required \<le> d_avg_power (entries ! j) \<longrightarrow> d_avg_power (entries ! j) \<le> best)
             \<and> (\<forall>j < i.
                   required \<le> d_avg_power (entries ! j) \<longrightarrow> d_avg_power (entries ! j) < best)))"

section \<open>The energy under a sampled curve\<close>

text \<open>
  The trapezoidal rule over a sequence of samples, as the specification's round-trip
  property between the closed-form average and the sampled curve words it. The program
  does not compute it.
\<close>

fun trapezoid :: "real list \<Rightarrow> real list \<Rightarrow> real" where
  "trapezoid (t0 # t1 # ts) (p0 # p1 # ps) =
     (t1 - t0) * (p0 + p1) / 2 + trapezoid (t1 # ts) (p1 # ps)"
| "trapezoid ts ps = 0"

section \<open>Wall resistance\<close>

lemmas material_names = Kirpich_def Gazoblok_def Derevo_brus_def Sendvich_panel_def
  Mineralnaya_vata_def OSB_def Profnastil_stal_def Mineralnaya_vata_s_obshivkoy_def

lemmas wood_names = Khvoynye_def Beryoza_def Dub_def

lemma MATERIALS_positive: "map_of MATERIALS m = Some c \<Longrightarrow> 0 < c"
  by (auto simp: MATERIALS_def split: if_splits)

lemma MATERIALS_composite: "map_of MATERIALS Mineralnaya_vata_s_obshivkoy = None"
  by (simp add: MATERIALS_def material_names)

lemma composite_layers:
  "py_getitem MATERIALS OSB = Inr 0.13"
  "py_getitem MATERIALS Mineralnaya_vata = Inr 0.045"
  "py_getitem MATERIALS Profnastil_stal = Inr 58"
  by (simp_all add: py_getitem_def MATERIALS_def material_names)

lemma wall_r_homogeneous:
  assumes "material_type \<noteq> Mineralnaya_vata_s_obshivkoy"
  shows "calculate_wall_r_value material_type wall_thickness_m w =
    Inr (0.13 + wall_thickness_m /
           (case map_of MATERIALS material_type of None \<Rightarrow> 0.81 | Some c \<Rightarrow> c) + 0.04)"
proof (cases "map_of MATERIALS material_type")
  case None
  with assms show ?thesis
    by (simp add: calculate_wall_r_value_def py_get_def py_div_def bind_def R_SI_def R_SE_def)
next
  case (Some c)
  with MATERIALS_positive[OF Some] assms show ?thesis
    by (simp add: calculate_wall_r_value_def py_get_def py_div_def bind_def R_SI_def R_SE_def)
qed

lemma wall_r_composite:
  "calculate_wall_r_value Mineralnaya_vata_s_obshivkoy wall_thickness_m w =
    Inr (0.13 + (0.009 / 0.13 + w / 0.045 + 0.0005 / 58) + 0.04)"
  by (simp add: calculate_wall_r_value_def composite_layers py_div_def bind_def R_SI_def R_SE_def)

text \<open>
  Claim C9, as amended. \<^verbatim>\<open>calculate_wall_r_value\<close> never raises. For every material
  name other than the composite "mineral wool with cladding" it returns
  \<open>0.13 + thickness / conductivity + 0.04\<close>, where a name absent from the table uses
  brick's conductivity 0.81. For the composite name, which is absent from the table too,
  it returns \<open>0.13 + (0.009 / 0.13 + wool / 0.045 + 0.0005 / 58) + 0.04\<close> from the
  separate wool thickness instead. The result is at least 0.17 whenever the thickness
  that is used is not negative.
\<close>

theorem calculate_wall_r_value_formula:
  "calculate_wall_r_value material_type wall_thickness_m min_wool_thickness_m =
     Inr (if material_type = Mineralnaya_vata_s_obshivkoy
          then 0.13 + (0.009 / 0.13 + min_wool_thickness_m / 0.045 + 0.0005 / 58) + 0.04
          else 0.13 + wall_thickness_m /
                 (case map_of MATERIALS material_type of None \<Rightarrow> 0.81 | Some c \<Rightarrow> c) + 0.04)
   \<and> (0 \<le> (if material_type = Mineralnaya_vata_s_obshivkoy then min_wool_thickness_m
             else wall_thickness_m) \<longrightarrow>
        (case calculate_wall_r_value material_type wall_thickness_m min_wool_thickness_m of
           Inl e \<Rightarrow> False | Inr r \<Rightarrow> 0.17 \<le> r))"
proof (cases "material_type = Mineralnaya_vata_s_obshivkoy")
  case True
  then show ?thesis by (simp add: wall_r_composite)
next
  case False
  show ?thesis
  proof (cases "map_of MATERIALS material_type")
    case None
    with False show ?thesis by (simp add: wall_r_homogeneous)
  next
    case (Some c)
    with False MATERIALS_positive[OF Some] show ?thesis by (simp add: wall_r_homogeneous)
  qed
qed

theorem calculate_wall_r_value_formula_witness:
  "calculate_wall_r_value Kirpich 0.4 0.05 = Inr (0.13 + 0.4 / 0.81 + 0.04)
   \<and> (0::real) \<le> 0.4
   \<and> (case calculate_wall_r_value Kirpich 0.4 0.05 of Inl e \<Rightarrow> False | Inr r \<Rightarrow> 0.17 \<le> r)"
  using calculate_wall_r_value_formula [of Kirpich "0.4" "0.05"]
  by (simp add: MATERIALS_def material_names)

text \<open>
  Claim C9 as stated fails at the composite wall name with thickness 0.1 m (a 10 cm wall
  of mineral wool with cladding): the name is absent from the table and the thickness is
  not negative, yet the result is not \<open>0.13 + 0.1 / 0.81 + 0.04\<close>.
\<close>

theorem composite_wall_counterexample:
  "map_of MATERIALS Mineralnaya_vata_s_obshivkoy = None
   \<and> (0::real) \<le> 0.1
   \<and> calculate_wall_r_value Mineralnaya_vata_s_obshivkoy 0.1 0.1
        \<noteq> Inr (0.13 + 0.1 / 0.81 + 0.04)"
  by (simp add: wall_r_composite MATERIALS_composite)

section \<open>Heat loss\<close>

lemma sqrt_100: "sqrt 100 = 10"
  using real_sqrt_abs [of 10] by simp

text \<open>
  Claim C4. For positive area, height and resistances, \<^verbatim>\<open>calculate_heat_loss\<close> returns
  exactly 0 when \<open>t_in - t_out \<le> 0\<close>, and otherwise
  \<open>(4 * sqrt area * height * dt / R_wall + area * dt / R_floor + area * dt / R_ceiling) / 1000\<close>
  with \<open>dt = t_in - t_out\<close>; it does not raise, and the result is never negative.
\<close>

theorem calculate_heat_loss_formula:
  assumes "0 < area" and "0 < height"
    and "0 < wall_r_value" and "0 < floor_r_value" and "0 < ceiling_r_value"
  shows "calculate_heat_loss area height wall_r_value floor_r_value ceiling_r_value t_in t_out =
      Inr (if t_in - t_out \<le> 0 then 0
           else (4 * sqrt area * height * (t_in - t_out) / wall_r_value
                 + area * (t_in - t_out) / floor_r_value
                 + area * (t_in - t_out) / ceiling_r_value) / 1000)
    \<and> (case calculate_heat_loss area height wall_r_value floor_r_value ceiling_r_value t_in t_out
          of Inl e \<Rightarrow> False | Inr q \<Rightarrow> 0 \<le> q)"
proof (cases "t_in - t_out \<le> 0")
  case True
  then show ?thesis by (simp add: calculate_heat_loss_def)
next
  case False
  then have dt: "0 < t_in - t_out" by simp
  have eq: "calculate_heat_loss area height wall_r_value floor_r_value ceiling_r_value t_in t_out =
      Inr ((4 * sqrt area * height * (t_in - t_out) / wall_r_value
                 + area * (t_in - t_out) / floor_r_value
                 + area * (t_in - t_out) / ceiling_r_value) / 1000)"
    using assms False
    by (simp add: calculate_heat_loss_def py_sqrt_def py_div_def bind_def Let_def)
  have "0 \<le> 4 * sqrt area * height * (t_in - t_out) / wall_r_value"
    using assms dt by simp
  moreover have "0 \<le> area * (t_in - t_out) / floor_r_value"
    using assms dt by simp
  moreover have "0 \<le> area * (t_in - t_out) / ceiling_r_value"
    using assms dt by simp
  ultimately have "0 \<le> (4 * sqrt area * height * (t_in - t_out) / wall_r_value
                 + area * (t_in - t_out) / floor_r_value
                 + area * (t_in - t_out) / ceiling_r_value) / 1000"
    by simp
  with eq False show ?thesis by simp
qed

theorem calculate_heat_loss_formula_witness:
  "(0::real) < 100 \<and> (0::real) < 2.5 \<and> (0::real) < 0.664 \<and> (0::real) < 3.5
   \<and> calculate_heat_loss 100 2.5 0.664 2.5 3.5 22 (-20) =
        Inr ((100 * 42 / 0.664 + 100 * 42 / 2.5 + 100 * 42 / 3.5) / 1000)
   \<and> (case calculate_heat_loss 100 2.5 0.664 2.5 3.5 22 (-20) of
          Inl e \<Rightarrow> False | Inr q \<Rightarrow> 0 \<le> q)"
  using calculate_heat_loss_formula [of 100 "2.5" "0.664" "2.5" "3.5" 22 "-20"]
  by (simp add: sqrt_100)

section \<open>The power curve\<close>

text \<open>
  Claim C3 says that a burn duration of 0 gives average power 0 and samples that are all
  0, without raising. The code guards the average (line 99) but not the sample loop:
  with duration 0 the only time point is 0.0, and line 106 divides it by the duration.
  The function raises \<^verbatim>\<open>ZeroDivisionError\<close>.
\<close>

theorem zero_duration_raises:
  "get_furnace_power_curve 77 0.8 Beryoza 0.85 0 = Inl ZeroDivisionError"
  by (simp add: get_furnace_power_curve_def py_getitem_def WOOD_TYPES_def wood_names
      py_int_def py_range_def py_div_def bind_def)

lemma power_loop_samples:
  "burn_hours \<noteq> 0 \<Longrightarrow>
   power_loop peak burn_hours ts = Inr (map (\<lambda>t. max 0 (peak * (1 - t / burn_hours))) ts)"
  by (induction ts) (simp_all add: py_div_def bind_def)

lemma WOOD_TYPES_positive:
  "map_of WOOD_TYPES wood_type = Some wood \<Longrightarrow> 0 < density wood \<and> 0 < q_mj_kg wood"
  by (auto simp: WOOD_TYPES_def split: if_splits)

lemma py_range_pos: "0 < b \<Longrightarrow> py_range (py_int (b * 2) + 1) = [0..\<lfloor>2 * b\<rfloor>]"
  by (simp add: py_range_def py_int_def mult.commute)

lemma curve_positive_duration:
  assumes "0 < burn_hours" and "map_of WOOD_TYPES wood_type = Some wood"
  shows "get_furnace_power_curve volume fill_fraction wood_type efficiency burn_hours =
    Inr (map (\<lambda>i. real_of_int i * 0.5) [0..\<lfloor>2 * burn_hours\<rfloor>],
         map (\<lambda>t. max 0 (volume / 1000 * fill_fraction * density wood * q_mj_kg wood / 3.6
                 * efficiency / burn_hours * 2 * (1 - t / burn_hours)))
           (map (\<lambda>i. real_of_int i * 0.5) [0..\<lfloor>2 * burn_hours\<rfloor>]),
         volume / 1000 * fill_fraction * density wood * q_mj_kg wood / 3.6 * efficiency)"
  using assms
  by (simp add: get_furnace_power_curve_def py_getitem_def py_div_def bind_def Let_def
      power_loop_samples py_range_pos)

lemma upto_0_nonempty: "0 \<le> k \<Longrightarrow> [0..k] = 0 # [1..k]"
  by (simp add: upto_rec1)

text \<open>
  Claim C7. For every burn duration above 0 (and a wood type of the table), the call
  returns, and the power sample at each sample time \<open>t\<close> is
  \<open>max 0 (P_peak * (1 - t / duration))\<close> with \<open>P_peak = 2 * avg_power\<close> and
  \<open>avg_power = (fuel_energy_MJ / 3.6 * efficiency) / duration\<close>, the fuel energy being
  \<open>volume / 1000 * fill_fraction * density * q_mj_kg\<close>. The first sample time is 0, and
  for a volume, fill fraction and efficiency that are not negative the sample there is
  exactly \<open>2 * avg_power\<close>.
\<close>

theorem power_curve_samples:
  assumes "0 < burn_hours" and "map_of WOOD_TYPES wood_type = Some wood"
  shows "\<exists>time_points power_points total_kwh.
     get_furnace_power_curve volume fill_fraction wood_type efficiency burn_hours
       = Inr (time_points, power_points, total_kwh)
     \<and> total_kwh = volume / 1000 * fill_fraction * density wood * q_mj_kg wood / 3.6 * efficiency
     \<and> length power_points = length time_points
     \<and> (\<forall>i < length time_points.
          power_points ! i
            = max 0 (2 * (total_kwh / burn_hours) * (1 - time_points ! i / burn_hours)))
     \<and> time_points \<noteq> [] \<and> time_points ! 0 = 0
     \<and> (0 \<le> volume \<and> 0 \<le> fill_fraction \<and> 0 \<le> efficiency
          \<longrightarrow> power_points ! 0 = 2 * (total_kwh / burn_hours))"
proof -
  let ?total = "volume / 1000 * fill_fraction * density wood * q_mj_kg wood / 3.6 * efficiency"
  let ?ts = "map (\<lambda>i. real_of_int i * 0.5) [0..\<lfloor>2 * burn_hours\<rfloor>]"
  let ?ps = "map (\<lambda>t. max 0 (?total / burn_hours * 2 * (1 - t / burn_hours))) ?ts"
  have run: "get_furnace_power_curve volume fill_fraction wood_type efficiency burn_hours
       = Inr (?ts, ?ps, ?total)"
    by (rule curve_positive_duration [OF assms])
  have k: "0 \<le> \<lfloor>2 * burn_hours\<rfloor>" using assms(1) by simp
  have ne: "?ts \<noteq> []" and hd0: "?ts ! 0 = 0"
    by (simp_all add: upto_0_nonempty [OF k])
  have samples: "\<forall>i < length ?ts.
      ?ps ! i = max 0 (2 * (?total / burn_hours) * (1 - ?ts ! i / burn_hours))"
    by (simp add: mult.commute)
  have peak: "?ps ! 0 = 2 * (?total / burn_hours)"
    if "0 \<le> volume \<and> 0 \<le> fill_fraction \<and> 0 \<le> efficiency"
  proof -
    have t: "0 \<le> ?total"
      using that WOOD_TYPES_positive [OF assms(2)] by simp
    have a: "0 \<le> ?total / burn_hours"
      by (rule divide_nonneg_pos [OF t assms(1)])
    have "0 \<le> 2 * (?total / burn_hours)"
      by (rule mult_nonneg_nonneg [OF _ a]) simp
    then have "max 0 (2 * (?total / burn_hours)) = 2 * (?total / burn_hours)"
      by (rule max_absorb2)
    moreover have "?ps ! 0 = max 0 (2 * (?total / burn_hours))"
      by (simp add: upto_0_nonempty [OF k])
    ultimately show ?thesis by (simp only:)
  qed
  show ?thesis
    apply (rule exI [of _ ?ts], rule exI [of _ ?ps], rule exI [of _ ?total])
    using run ne hd0 samples peak by simp
qed


theorem power_curve_samples_witness:
  "(0::real) < 8 \<and> map_of WOOD_TYPES Khvoynye = Some \<lparr>density = 350, q_mj_kg = 17\<rparr>
   \<and> (\<exists>time_points power_points total_kwh.
     get_furnace_power_curve 125 0.8 Khvoynye 0.85 8 = Inr (time_points, power_points, total_kwh)
     \<and> total_kwh = 125 / 1000 * 0.8 * 350 * 17 / 3.6 * 0.85
     \<and> length power_points = length time_points
     \<and> (\<forall>i < length time_points.
          power_points ! i = max 0 (2 * (total_kwh / 8) * (1 - time_points ! i / 8)))
     \<and> time_points \<noteq> [] \<and> time_points ! 0 = 0
     \<and> power_points ! 0 = 2 * (total_kwh / 8))"
proof -
  have w: "map_of WOOD_TYPES Khvoynye = Some \<lparr>density = 350, q_mj_kg = 17\<rparr>"
    by (simp add: WOOD_TYPES_def wood_names)
  have b: "(0::real) < 8" by simp
  show ?thesis
    using power_curve_samples [OF b w, of 125 "0.8" "0.85"] w by simp
qed


lemma upto_int_nat: "[0..int n] = map int [0..<Suc n]"
  by (induction n) (simp_all add: upto_rec2)

lemma trapezoid_sum:
  "i \<le> n \<Longrightarrow>
   trapezoid (map f [i..<Suc n]) (map g [i..<Suc n])
     = (\<Sum>k = i..<n. (f (Suc k) - f k) * (g k + g (Suc k)) / 2)"
proof (induction "n - i" arbitrary: i)
  case 0
  then have "i = n" by simp
  then show ?case by simp
next
  case (Suc d)
  then have lt: "i < n" and le: "Suc i \<le> n" and d: "d = n - Suc i" by simp_all
  have l: "[i..<Suc n] = i # Suc i # [Suc (Suc i)..<Suc n]"
    using lt by (simp add: upt_conv_Cons)
  have l': "[Suc i..<Suc n] = Suc i # [Suc (Suc i)..<Suc n]"
    using lt by (simp add: upt_conv_Cons)
  have "trapezoid (map f [i..<Suc n]) (map g [i..<Suc n])
      = (f (Suc i) - f i) * (g i + g (Suc i)) / 2
        + trapezoid (map f [Suc i..<Suc n]) (map g [Suc i..<Suc n])"
    unfolding l l' by simp
  also have "\<dots> = (f (Suc i) - f i) * (g i + g (Suc i)) / 2
        + (\<Sum>k = Suc i..<n. (f (Suc k) - f k) * (g k + g (Suc k)) / 2)"
    using Suc.hyps(1) [OF d le] by simp
  also have "\<dots> = (\<Sum>k = i..<n. (f (Suc k) - f k) * (g k + g (Suc k)) / 2)"
    using lt by (simp add: sum.atLeast_Suc_lessThan)
  finally show ?case .
qed

lemma ramp_sum:
  assumes "0 < n"
  shows "(\<Sum>k = 0..<m. (real (Suc k) / 2 - real k / 2)
        * (P * (1 - real k / real n) + P * (1 - real (Suc k) / real n)) / 2)
     = P / 4 * (2 * real m - (real m)\<^sup>2 / real n)"
proof (induction m)
  case 0
  then show ?case by simp
next
  case (Suc m)
  let ?F = "\<lambda>k. (real (Suc k) / 2 - real k / 2)
        * (P * (1 - real k / real n) + P * (1 - real (Suc k) / real n)) / 2"
  have "(\<Sum>k = 0..<Suc m. ?F k) = (\<Sum>k = 0..<m. ?F k) + ?F m"
    by simp
  also have "\<dots> = P / 4 * (2 * real m - (real m)\<^sup>2 / real n) + ?F m"
    by (simp only: Suc.IH)
  also have "\<dots> = P / 4 * (2 * real (Suc m) - (real (Suc m))\<^sup>2 / real n)"
    using assms by (simp add: field_simps power2_eq_square)
  finally show ?case .
qed

lemma ramp_sample:
  assumes "0 \<le> P" and "0 < n" and "k \<le> n" and "burn_hours = real n / 2"
  shows "max 0 (P * (1 - real k / 2 / burn_hours)) = P * (1 - real k / real n)"
proof -
  have q: "real k / 2 / (real n / 2) = real k / real n"
    by simp
  have "real k / real n \<le> 1" using assms(2,3) by simp
  then have "0 \<le> 1 - real k / real n" by simp
  then have "0 \<le> P * (1 - real k / real n)"
    by (rule mult_nonneg_nonneg [OF assms(1)])
  then have "max 0 (P * (1 - real k / real n)) = P * (1 - real k / real n)"
    by (rule max_absorb2)
  then show ?thesis unfolding assms(4) q .
qed

lemma ramp_trapezoid:
  assumes "0 \<le> P" and "0 < n" and "burn_hours = real n / 2"
  shows "trapezoid (map (\<lambda>k. real k / 2) [0..<Suc n])
           (map (\<lambda>k. max 0 (P * (1 - real k / 2 / burn_hours))) [0..<Suc n])
         = P / 2 * burn_hours"
proof -
  have "map (\<lambda>k. max 0 (P * (1 - real k / 2 / burn_hours))) [0..<Suc n]
      = map (\<lambda>k. P * (1 - real k / real n)) [0..<Suc n]"
    using assms by (intro map_cong refl ramp_sample) auto
  then have "trapezoid (map (\<lambda>k. real k / 2) [0..<Suc n])
           (map (\<lambda>k. max 0 (P * (1 - real k / 2 / burn_hours))) [0..<Suc n])
      = (\<Sum>k = 0..<n. (real (Suc k) / 2 - real k / 2)
        * (P * (1 - real k / real n) + P * (1 - real (Suc k) / real n)) / 2)"
    by (simp only: trapezoid_sum [OF le0])
  also have "\<dots> = P / 4 * (2 * real n - (real n)\<^sup>2 / real n)"
    by (rule ramp_sum [OF assms(2)])
  also have "\<dots> = P / 2 * burn_hours"
    using assms(2,3) by (simp add: power2_eq_square)
  finally show ?thesis .
qed


lemma half_hour_grid: "map (\<lambda>i. real_of_int i * 0.5) xs = map (\<lambda>i. real_of_int i / 2) xs"
  by simp

text \<open>
  Claim C8, as amended. For every burn duration above 0 the sample times are the multiples
  of 0.5 from 0 that do not exceed the duration. When the duration is itself a whole
  number of half hours (and volume, fill fraction and efficiency are not negative), the
  last sample time is the duration and the trapezoidal integral of the sampled power over
  the sample times equals \<open>avg_power * duration\<close>, exactly in real arithmetic.
\<close>

theorem power_curve_energy:
  assumes "0 < burn_hours" and "map_of WOOD_TYPES wood_type = Some wood"
    and "0 \<le> volume" and "0 \<le> fill_fraction" and "0 \<le> efficiency"
  shows "\<exists>time_points power_points total_kwh.
     get_furnace_power_curve volume fill_fraction wood_type efficiency burn_hours
       = Inr (time_points, power_points, total_kwh)
     \<and> time_points = map (\<lambda>i. real_of_int i / 2) [0..\<lfloor>2 * burn_hours\<rfloor>]
     \<and> (2 * burn_hours = real_of_int \<lfloor>2 * burn_hours\<rfloor> \<longrightarrow>
          last time_points = burn_hours
          \<and> trapezoid time_points power_points = total_kwh / burn_hours * burn_hours)"
proof -
  let ?total = "volume / 1000 * fill_fraction * density wood * q_mj_kg wood / 3.6 * efficiency"
  let ?P = "?total / burn_hours * 2"
  let ?ts = "map (\<lambda>i. real_of_int i / 2) [0..\<lfloor>2 * burn_hours\<rfloor>]"
  let ?ps = "map (\<lambda>t. max 0 (?P * (1 - t / burn_hours))) ?ts"
  have run: "get_furnace_power_curve volume fill_fraction wood_type efficiency burn_hours
       = Inr (?ts, ?ps, ?total)"
    using curve_positive_duration [OF assms(1,2), of volume fill_fraction efficiency]
    by (simp only: half_hour_grid)
  have t: "0 \<le> ?total"
    using assms(3-5) WOOD_TYPES_positive [OF assms(2)] by simp
  have P: "0 \<le> ?P"
    by (rule mult_nonneg_nonneg [OF divide_nonneg_pos [OF t assms(1)]]) simp
  have grid: "last ?ts = burn_hours \<and> trapezoid ?ts ?ps = ?total / burn_hours * burn_hours"
    if whole: "2 * burn_hours = real_of_int \<lfloor>2 * burn_hours\<rfloor>"
  proof -
    define n where "n = nat \<lfloor>2 * burn_hours\<rfloor>"
    have k: "0 < \<lfloor>2 * burn_hours\<rfloor>"
      using assms(1) whole by linarith
    then have n: "0 < n" and kn: "\<lfloor>2 * burn_hours\<rfloor> = int n"
      by (simp_all add: n_def)
    have b: "burn_hours = real n / 2"
      using whole kn by simp
    have ts: "?ts = map (\<lambda>k. real k / 2) [0..<Suc n]"
      unfolding kn upto_int_nat by (simp add: comp_def)
    have ps: "?ps = map (\<lambda>k. max 0 (?P * (1 - real k / 2 / burn_hours))) [0..<Suc n]"
      unfolding ts by (simp add: comp_def)
    have "trapezoid ?ts ?ps = ?P / 2 * burn_hours"
      unfolding ps unfolding ts by (rule ramp_trapezoid [OF P n b])
    also have "\<dots> = ?total / burn_hours * burn_hours"
      by simp
    finally have tr: "trapezoid ?ts ?ps = ?total / burn_hours * burn_hours" .
    have "last ?ts = real n / 2"
      unfolding ts by simp
    with b tr show ?thesis by simp
  qed
  show ?thesis
    apply (rule exI [of _ ?ts], rule exI [of _ ?ps], rule exI [of _ ?total])
    using run grid by blast
qed


lemma wood_Khvoynye: "map_of WOOD_TYPES Khvoynye = Some \<lparr>density = 350, q_mj_kg = 17\<rparr>"
  by (simp add: WOOD_TYPES_def wood_names)

theorem power_curve_energy_witness:
  "(0::real) < 8 \<and> map_of WOOD_TYPES Khvoynye = Some \<lparr>density = 350, q_mj_kg = 17\<rparr>
   \<and> (0::real) \<le> 125 \<and> (0::real) \<le> 0.8 \<and> (0::real) \<le> 0.85
   \<and> 2 * (8::real) = real_of_int \<lfloor>2 * (8::real)\<rfloor>
   \<and> (\<exists>time_points power_points total_kwh.
     get_furnace_power_curve 125 0.8 Khvoynye 0.85 8 = Inr (time_points, power_points, total_kwh)
     \<and> time_points = map (\<lambda>i. real_of_int i / 2) [0..16]
     \<and> last time_points = 8
     \<and> trapezoid time_points power_points = total_kwh / 8 * 8)"
  using power_curve_energy [of 8 Khvoynye "\<lparr>density = 350, q_mj_kg = 17\<rparr>" 125 "0.8" "0.85"]
    wood_Khvoynye
  by simp

text \<open>
  Claim C8 as stated fails for a burn duration of 0.75 h: the sample times are 0 and 0.5,
  so the duration is not among them, and the trapezoidal integral of the two samples is
  less than nine tenths of \<open>avg_power * duration\<close>.
\<close>

theorem short_burn_counterexample:
  "(0::real) < 0.75
   \<and> get_furnace_power_curve 125 0.8 Khvoynye 0.85 0.75
        = Inr ([0, 0.5], [10115 / 27, 10115 / 81], 10115 / 72)
   \<and> last [0, 0.5] \<noteq> (0.75::real)
   \<and> trapezoid [0, 0.5] [10115 / 27, 10115 / 81] < 0.9 * (10115 / 72 / 0.75 * 0.75)"
  by (simp add: curve_positive_duration [OF _ wood_Khvoynye] upto.simps)

section \<open>The choice of the model\<close>

lemma bind_Inr_iff: "bind r f = Inr y \<longleftrightarrow> (\<exists>v. r = Inr v \<and> f v = Inr y)"
  by (cases r) (simp_all add: bind_def)

lemma bind_Inr [simp]: "bind (Inr v) f = f v"
  by (simp add: bind_def)

lemma app_stages:
  assumes "app area height material_type thickness_cm t_in t_out wood_type fill_fraction
             efficiency burn_hours = Inr res"
  shows "\<exists>wall_r_val.
      calculate_heat_loss area height wall_r_val 2.5 3.5 t_in t_out = Inr (heat_loss_kw res)
    \<and> required_power_with_margin res = heat_loss_kw res * 1.2
    \<and> models_loop fill_fraction wood_type efficiency burn_hours (required_power_with_margin res)
        \<lparr>all_models_data = [], recommended_model = None, best_model_avg_power = 0\<rparr>
        MUSSON_MODELS = Inr (models res)
    \<and> cascade (recommended_model (models res)) (heat_loss_kw res)
        (required_power_with_margin res) (all_models_data (models res))
        = Inr (cascade_option res)
    \<and> refuel (recommended_model (models res)) (required_power_with_margin res)
        (all_models_data (models res)) = Inr (refuel_time res)"
  using assms unfolding app_def Let_def bind_Inr_iff by auto

lemma models_loop_foldl:
  "models_loop f w e b req s items = Inr s' \<Longrightarrow>
   \<exists>es. map (model_entry f w e b) items = map Inr es \<and> s' = foldl (select_step req) s es"
proof (induction items arbitrary: s)
  case Nil
  then show ?case by simp
next
  case (Cons item items)
  from Cons.prems obtain entry where
    en: "model_entry f w e b item = Inr entry" and
    rest: "models_loop f w e b req (select_step req s entry) items = Inr s'"
    by (auto simp: bind_Inr_iff)
  from Cons.IH [OF rest] obtain es where
    "map (model_entry f w e b) items = map Inr es"
    "s' = foldl (select_step req) (select_step req s entry) es"
    by blast
  with en have "map (model_entry f w e b) (item # items) = map Inr (entry # es)
      \<and> s' = foldl (select_step req) s (entry # es)"
    by simp
  then show ?case by blast
qed

lemma all_models_data_select_step:
  "all_models_data (select_step req s entry) = all_models_data s @ [entry]"
  by (simp add: select_step_def Let_def)

lemma all_models_data_foldl:
  "all_models_data (foldl (select_step req) s es) = all_models_data s @ es"
  by (induction es arbitrary: s) (simp_all add: all_models_data_select_step)

lemma chosen_init:
  "chosen req \<lparr>all_models_data = [], recommended_model = None, best_model_avg_power = 0\<rparr>"
  by (simp add: chosen_def)

lemma chosen_select_step:
  assumes "chosen req s"
  shows "chosen req (select_step req s entry)"
proof (cases "recommended_model s")
  case None
  with assms have b: "best_model_avg_power s = 0"
    and low: "\<forall>e \<in> set (all_models_data s). req \<le> d_avg_power e \<longrightarrow> d_avg_power e \<le> 0"
    by (simp_all add: chosen_def Let_def)
  show ?thesis
  proof (cases "req \<le> d_avg_power entry \<and> 0 < d_avg_power entry")
    case True
    have "\<forall>j < length (all_models_data s). req \<le> d_avg_power (all_models_data s ! j)
        \<longrightarrow> d_avg_power (all_models_data s ! j) < d_avg_power entry"
      using low True by fastforce
    with True b show ?thesis
      unfolding chosen_def select_step_def Let_def
      by (auto simp: nth_append less_Suc_eq intro!: exI [of _ "length (all_models_data s)"])
  next
    case False
    with None b low show ?thesis
      unfolding chosen_def select_step_def Let_def by auto
  qed
next
  case (Some m)
  with assms obtain i where i: "i < length (all_models_data s)"
    "d_model (all_models_data s ! i) = m"
    "d_avg_power (all_models_data s ! i) = best_model_avg_power s"
    "0 < best_model_avg_power s" "req \<le> best_model_avg_power s"
    "\<forall>j < length (all_models_data s). req \<le> d_avg_power (all_models_data s ! j)
        \<longrightarrow> d_avg_power (all_models_data s ! j) \<le> best_model_avg_power s"
    "\<forall>j < i. req \<le> d_avg_power (all_models_data s ! j)
        \<longrightarrow> d_avg_power (all_models_data s ! j) < best_model_avg_power s"
    by (auto simp: chosen_def Let_def)
  show ?thesis
  proof (cases "req \<le> d_avg_power entry \<and> best_model_avg_power s < d_avg_power entry")
    case True
    have "\<forall>j < length (all_models_data s). req \<le> d_avg_power (all_models_data s ! j)
        \<longrightarrow> d_avg_power (all_models_data s ! j) < d_avg_power entry"
      using i(6) True by fastforce
    with True i(4) show ?thesis
      unfolding chosen_def select_step_def Let_def
      by (auto simp: nth_append less_Suc_eq intro!: exI [of _ "length (all_models_data s)"])
  next
    case False
    with Some i show ?thesis
      unfolding chosen_def select_step_def Let_def
      by (auto simp: nth_append less_Suc_eq intro!: exI [of _ i])
  qed
qed

lemma chosen_foldl: "chosen req s \<Longrightarrow> chosen req (foldl (select_step req) s es)"
  by (induction es arbitrary: s) (simp_all add: chosen_select_step)


lemma model_entry_name: "model_entry f w e b item = Inr entry \<Longrightarrow> d_model entry = fst item"
  by (cases item) (auto simp: model_entry_def bind_Inr_iff)

lemma entries_names:
  assumes "map (model_entry f w e b) items = map Inr es"
  shows "map d_model es = map fst items"
proof (rule nth_equalityI)
  show len: "length (map d_model es) = length (map fst items)"
    using arg_cong [OF assms, of length] by simp
  fix i assume "i < length (map d_model es)"
  then have i: "i < length es" "i < length items" using len by simp_all
  have "model_entry f w e b (items ! i) = Inr (es ! i)"
    using arg_cong [OF assms, of "\<lambda>xs. xs ! i"] i by simp
  then show "map d_model es ! i = map fst items ! i"
    using i by (simp add: model_entry_name)
qed

lemma app_selection:
  assumes "app area height material_type thickness_cm t_in t_out wood_type fill_fraction
             efficiency burn_hours = Inr res"
  shows "map (model_entry fill_fraction wood_type efficiency burn_hours) MUSSON_MODELS
           = map Inr (all_models_data (models res))"
    and "chosen (required_power_with_margin res) (models res)"
proof -
  let ?init = "\<lparr>all_models_data = [], recommended_model = None, best_model_avg_power = 0\<rparr>"
  from app_stages [OF assms] have
    "models_loop fill_fraction wood_type efficiency burn_hours (required_power_with_margin res)
        ?init MUSSON_MODELS = Inr (models res)"
    by blast
  from models_loop_foldl [OF this] obtain es where
    es: "map (model_entry fill_fraction wood_type efficiency burn_hours) MUSSON_MODELS
           = map Inr es"
    and s: "models res = foldl (select_step (required_power_with_margin res)) ?init es"
    by blast
  have "all_models_data (models res) = es"
    unfolding s by (simp add: all_models_data_foldl)
  with es show "map (model_entry fill_fraction wood_type efficiency burn_hours) MUSSON_MODELS
           = map Inr (all_models_data (models res))" by simp
  show "chosen (required_power_with_margin res) (models res)"
    unfolding s by (rule chosen_foldl [OF chosen_init])
qed

text \<open>
  Claim C1. Whenever the script returns with a recommended model, the entries of
  \<^verbatim>\<open>all_models_data\<close> are those of the catalog models, in catalog order, and the
  recommended model is a catalog model that qualifies (its average power is at least the
  required power with margin), no qualifying model has a greater average power, and every
  qualifying model earlier in the catalog has a strictly smaller one: it is the first-seen
  model with the greatest average power among the qualifying ones.
\<close>

theorem recommended_model_is_most_powerful_qualifying:
  assumes "app area height material_type thickness_cm t_in t_out wood_type fill_fraction
             efficiency burn_hours = Inr res"
    and "recommended_model (models res) = Some m"
  shows "map (model_entry fill_fraction wood_type efficiency burn_hours) MUSSON_MODELS
           = map Inr (all_models_data (models res))
    \<and> (\<exists>i < length MUSSON_MODELS.
          fst (MUSSON_MODELS ! i) = m
        \<and> required_power_with_margin res \<le> d_avg_power (all_models_data (models res) ! i)
        \<and> (\<forall>j < length MUSSON_MODELS.
              required_power_with_margin res \<le> d_avg_power (all_models_data (models res) ! j)
              \<longrightarrow> d_avg_power (all_models_data (models res) ! j)
                    \<le> d_avg_power (all_models_data (models res) ! i))
        \<and> (\<forall>j < i.
              required_power_with_margin res \<le> d_avg_power (all_models_data (models res) ! j)
              \<longrightarrow> d_avg_power (all_models_data (models res) ! j)
                    < d_avg_power (all_models_data (models res) ! i)))"
proof -
  let ?es = "all_models_data (models res)"
  let ?req = "required_power_with_margin res"
  note sel = app_selection [OF assms(1)]
  have names: "map d_model ?es = map fst MUSSON_MODELS"
    by (rule entries_names [OF sel(1)])
  have len: "length ?es = length MUSSON_MODELS"
    by (rule map_eq_imp_length_eq [OF names])
  from sel(2) assms(2) obtain i where i: "i < length ?es" "d_model (?es ! i) = m"
    "d_avg_power (?es ! i) = best_model_avg_power (models res)"
    "?req \<le> best_model_avg_power (models res)"
    "\<forall>j < length ?es. ?req \<le> d_avg_power (?es ! j)
        \<longrightarrow> d_avg_power (?es ! j) \<le> best_model_avg_power (models res)"
    "\<forall>j < i. ?req \<le> d_avg_power (?es ! j)
        \<longrightarrow> d_avg_power (?es ! j) < best_model_avg_power (models res)"
    by (auto simp: chosen_def Let_def)
  have "map d_model ?es ! i = map fst MUSSON_MODELS ! i"
    by (simp only: names)
  then have "fst (MUSSON_MODELS ! i) = m"
    using i(1,2) len by simp
  with i len sel(1) show ?thesis by auto
qed


lemma model_entry_positive_duration:
  assumes "0 < burn_hours" and "map_of WOOD_TYPES wood_type = Some wood"
  shows "model_entry fill_fraction wood_type efficiency burn_hours item
           = Inr (model_data_of fill_fraction wood efficiency burn_hours item)"
  using assms
  by (cases item)
     (simp add: model_entry_def curve_positive_duration model_data_of_def model_avg_power_def
        py_div_def Let_def)

lemma models_loop_positive_duration:
  assumes "0 < burn_hours" and "map_of WOOD_TYPES wood_type = Some wood"
  shows "models_loop fill_fraction wood_type efficiency burn_hours req s items
           = Inr (foldl (select_step req) s
                    (map (model_data_of fill_fraction wood efficiency burn_hours) items))"
  by (induction items arbitrary: s) (simp_all add: model_entry_positive_duration [OF assms])

lemma app_positive_duration:
  assumes "0 < burn_hours" and "map_of WOOD_TYPES wood_type = Some wood"
    and "calculate_wall_r_value material_type (thickness_cm / 100)
           (if material_type = Mineralnaya_vata_s_obshivkoy then thickness_cm / 100 else 0.05)
           = Inr wr"
    and "calculate_heat_loss area height wr 2.5 3.5 t_in t_out = Inr h"
    and "s = foldl (select_step (h * 1.2))
               \<lparr>all_models_data = [], recommended_model = None, best_model_avg_power = 0\<rparr>
               (map (model_data_of fill_fraction wood efficiency burn_hours) MUSSON_MODELS)"
    and "cascade (recommended_model s) h (h * 1.2) (all_models_data s) = Inr offer"
    and "refuel (recommended_model s) (h * 1.2) (all_models_data s) = Inr r"
  shows "app area height material_type thickness_cm t_in t_out wood_type fill_fraction
           efficiency burn_hours
         = Inr \<lparr>heat_loss_kw = h, required_power_with_margin = h * 1.2, models = s,
                cascade_option = offer, refuel_time = r\<rparr>"
  unfolding app_def Let_def
  using assms(3-7) by (simp add: models_loop_positive_duration [OF assms(1,2)])


lemmas model_names = Musson_300_def Musson_600_def Musson_1000_def Musson_1500_def
  Musson_2000_def

lemma default_wall: "calculate_wall_r_value Kirpich (40 / 100) 0.05 = Inr (5377 / 8100)"
  by (simp add: wall_r_homogeneous MATERIALS_def material_names)

lemma default_heat_loss:
  "calculate_heat_loss 100 2.5 (5377 / 8100) 2.5 3.5 22 (- 20) = Inr (1237644 / 134425)"
  by (simp add: calculate_heat_loss_def py_sqrt_def py_div_def sqrt_100 Let_def)

lemma default_selection:
  "foldl (select_step (1237644 / 134425 * 1.2))
     \<lparr>all_models_data = [], recommended_model = None, best_model_avg_power = 0\<rparr>
     (map (model_data_of 0.8 \<lparr>density = 350, q_mj_kg = 17\<rparr> 0.85 8) MUSSON_MODELS)
   = \<lparr>all_models_data =
        map (model_data_of 0.8 \<lparr>density = 350, q_mj_kg = 17\<rparr> 0.85 8) MUSSON_MODELS,
      recommended_model = Some Musson_2000,
      best_model_avg_power = 944741 / 14400\<rparr>"
  by (simp add: MUSSON_MODELS_def select_step_def model_data_of_def model_avg_power_def Let_def)

lemma default_refuel:
  "refuel (Some Musson_2000) (1237644 / 134425 * 1.2)
     (map (model_data_of 0.8 \<lparr>density = 350, q_mj_kg = 17\<rparr> 0.85 8) MUSSON_MODELS)
   = Inr (Some 7)"
  by (simp add: refuel_def next_model_def MUSSON_MODELS_def model_names model_data_of_def
      model_avg_power_def Let_def upto.simps)

lemma default_run:
  "app 100 2.5 Kirpich 40 22 (- 20) Khvoynye 0.8 0.85 8
   = Inr \<lparr>heat_loss_kw = 1237644 / 134425,
          required_power_with_margin = 1237644 / 134425 * 1.2,
          models = \<lparr>all_models_data =
              map (model_data_of 0.8 \<lparr>density = 350, q_mj_kg = 17\<rparr> 0.85 8) MUSSON_MODELS,
            recommended_model = Some Musson_2000,
            best_model_avg_power = 944741 / 14400\<rparr>,
          cascade_option = None,
          refuel_time = Some 7\<rparr>"
proof (rule app_positive_duration [OF _ wood_Khvoynye])
  show "(0::real) < 8" by simp
  show "calculate_wall_r_value Kirpich (40 / 100)
          (if Kirpich = Mineralnaya_vata_s_obshivkoy then 40 / 100 else 0.05)
        = Inr (5377 / 8100)"
    using default_wall by (simp add: material_names)
  show "calculate_heat_loss 100 2.5 (5377 / 8100) 2.5 3.5 22 (- 20) = Inr (1237644 / 134425)"
    by (rule default_heat_loss)
  show "\<lparr>all_models_data =
              map (model_data_of 0.8 \<lparr>density = 350, q_mj_kg = 17\<rparr> 0.85 8) MUSSON_MODELS,
            recommended_model = Some Musson_2000,
            best_model_avg_power = 944741 / 14400\<rparr>
       = foldl (select_step (1237644 / 134425 * 1.2))
     \<lparr>all_models_data = [], recommended_model = None, best_model_avg_power = 0\<rparr>
     (map (model_data_of 0.8 \<lparr>density = 350, q_mj_kg = 17\<rparr> 0.85 8) MUSSON_MODELS)"
    by (rule default_selection [symmetric])
  show "cascade (recommended_model \<lparr>all_models_data =
              map (model_data_of 0.8 \<lparr>density = 350, q_mj_kg = 17\<rparr> 0.85 8) MUSSON_MODELS,
            recommended_model = Some Musson_2000,
            best_model_avg_power = 944741 / 14400\<rparr>) (1237644 / 134425)
          (1237644 / 134425 * 1.2)
          (all_models_data \<lparr>all_models_data =
              map (model_data_of 0.8 \<lparr>density = 350, q_mj_kg = 17\<rparr> 0.85 8) MUSSON_MODELS,
            recommended_model = Some Musson_2000,
            best_model_avg_power = 944741 / 14400\<rparr>) = Inr None"
    by (simp add: cascade_def py_truthy_def model_names)
  show "refuel (recommended_model \<lparr>all_models_data =
              map (model_data_of 0.8 \<lparr>density = 350, q_mj_kg = 17\<rparr> 0.85 8) MUSSON_MODELS,
            recommended_model = Some Musson_2000,
            best_model_avg_power = 944741 / 14400\<rparr>)
          (1237644 / 134425 * 1.2)
          (all_models_data \<lparr>all_models_data =
              map (model_data_of 0.8 \<lparr>density = 350, q_mj_kg = 17\<rparr> 0.85 8) MUSSON_MODELS,
            recommended_model = Some Musson_2000,
            best_model_avg_power = 944741 / 14400\<rparr>) = Inr (Some 7)"
    using default_refuel by simp
qed


theorem recommended_model_is_most_powerful_qualifying_witness:
  "\<exists>res. app 100 2.5 Kirpich 40 22 (- 20) Khvoynye 0.8 0.85 8 = Inr res
     \<and> recommended_model (models res) = Some Musson_2000
     \<and> map (model_entry 0.8 Khvoynye 0.85 8) MUSSON_MODELS
           = map Inr (all_models_data (models res))
     \<and> (\<exists>i < length MUSSON_MODELS.
          fst (MUSSON_MODELS ! i) = Musson_2000
        \<and> required_power_with_margin res \<le> d_avg_power (all_models_data (models res) ! i)
        \<and> (\<forall>j < length MUSSON_MODELS.
              required_power_with_margin res \<le> d_avg_power (all_models_data (models res) ! j)
              \<longrightarrow> d_avg_power (all_models_data (models res) ! j)
                    \<le> d_avg_power (all_models_data (models res) ! i))
        \<and> (\<forall>j < i.
              required_power_with_margin res \<le> d_avg_power (all_models_data (models res) ! j)
              \<longrightarrow> d_avg_power (all_models_data (models res) ! j)
                    < d_avg_power (all_models_data (models res) ! i)))"
proof -
  have "\<exists>res. app 100 2.5 Kirpich 40 22 (- 20) Khvoynye 0.8 0.85 8 = Inr res
      \<and> recommended_model (models res) = Some Musson_2000"
    by (rule exI, rule conjI, rule default_run) simp
  then obtain res where run: "app 100 2.5 Kirpich 40 22 (- 20) Khvoynye 0.8 0.85 8 = Inr res"
    and rec: "recommended_model (models res) = Some Musson_2000"
    by blast
  from recommended_model_is_most_powerful_qualifying [OF run rec] run rec
  show ?thesis by blast
qed

text \<open>
  Claim C2, as amended. Whenever the script returns with a recommended model, that model
  qualifies and its average power is the highest average power among the qualifying models
  (not the lowest one): it equals the maximum over the qualifying entries, which is the
  value the script keeps in \<^verbatim>\<open>best_model_avg_power\<close>.
\<close>

theorem recommended_model_has_highest_average:
  assumes "app area height material_type thickness_cm t_in t_out wood_type fill_fraction
             efficiency burn_hours = Inr res"
    and "recommended_model (models res) = Some m"
  shows "\<exists>e \<in> set (all_models_data (models res)).
           d_model e = m
         \<and> required_power_with_margin res \<le> d_avg_power e
         \<and> d_avg_power e = best_model_avg_power (models res)
         \<and> d_avg_power e
             = Max (d_avg_power ` {e' \<in> set (all_models_data (models res)).
                                    required_power_with_margin res \<le> d_avg_power e'})"
proof -
  let ?es = "all_models_data (models res)"
  let ?req = "required_power_with_margin res"
  let ?Q = "{e' \<in> set ?es. ?req \<le> d_avg_power e'}"
  from app_selection(2) [OF assms(1)] assms(2) obtain i where i: "i < length ?es"
    "d_model (?es ! i) = m"
    "d_avg_power (?es ! i) = best_model_avg_power (models res)"
    "?req \<le> best_model_avg_power (models res)"
    "\<forall>j < length ?es. ?req \<le> d_avg_power (?es ! j)
        \<longrightarrow> d_avg_power (?es ! j) \<le> best_model_avg_power (models res)"
    by (auto simp: chosen_def Let_def)
  have mem: "?es ! i \<in> ?Q" using i(1,3,4) by simp
  have "Max (d_avg_power ` ?Q) = d_avg_power (?es ! i)"
  proof (rule Max_eqI)
    show "finite (d_avg_power ` ?Q)" by simp
    show "d_avg_power (?es ! i) \<in> d_avg_power ` ?Q" using mem by (rule imageI)
    fix y assume "y \<in> d_avg_power ` ?Q"
    then obtain e' where e': "e' \<in> set ?es" "?req \<le> d_avg_power e'" "y = d_avg_power e'"
      by auto
    from e'(1) obtain j where "j < length ?es" "?es ! j = e'"
      by (auto simp: in_set_conv_nth)
    with i(5) e'(2,3) show "y \<le> d_avg_power (?es ! i)" using i(3) by auto
  qed
  with i mem show ?thesis
    by (intro bexI [of _ "?es ! i"]) simp_all
qed

theorem recommended_model_has_highest_average_witness:
  "\<exists>res. app 100 2.5 Kirpich 40 22 (- 20) Khvoynye 0.8 0.85 8 = Inr res
     \<and> recommended_model (models res) = Some Musson_2000
     \<and> (\<exists>e \<in> set (all_models_data (models res)).
           d_model e = Musson_2000
         \<and> required_power_with_margin res \<le> d_avg_power e
         \<and> d_avg_power e = best_model_avg_power (models res)
         \<and> d_avg_power e
             = Max (d_avg_power ` {e' \<in> set (all_models_data (models res)).
                                    required_power_with_margin res \<le> d_avg_power e'}))"
proof -
  have "\<exists>res. app 100 2.5 Kirpich 40 22 (- 20) Khvoynye 0.8 0.85 8 = Inr res
      \<and> recommended_model (models res) = Some Musson_2000"
    by (rule exI, rule conjI, rule default_run) simp
  then obtain res where run: "app 100 2.5 Kirpich 40 22 (- 20) Khvoynye 0.8 0.85 8 = Inr res"
    and rec: "recommended_model (models res) = Some Musson_2000"
    by blast
  from recommended_model_has_highest_average [OF run rec] run rec
  show ?thesis by blast
qed

text \<open>
  Claim C2 as stated fails on the default inputs of the form (100 square metres, 2.5 m, brick 40 cm,
  22 and -20 degrees, conifer wood, 80 % fill, 85 % efficiency, 8 h): "Musson 600"
  qualifies with a lower average power than the recommended "Musson 2000".
\<close>

theorem smallest_sufficient_counterexample:
  "\<exists>res. app 100 2.5 Kirpich 40 22 (- 20) Khvoynye 0.8 0.85 8 = Inr res
     \<and> recommended_model (models res) = Some Musson_2000
     \<and> required_power_with_margin res = 7425864 / 672125
     \<and> map (\<lambda>e. (d_model e, d_avg_power e)) (all_models_data (models res))
         = [(Musson_300, 155771 / 14400), (Musson_600, 10115 / 576), (Musson_1000, 2023 / 72),
            (Musson_1500, 629153 / 14400), (Musson_2000, 944741 / 14400)]
     \<and> (7425864 / 672125 :: real) \<le> 10115 / 576
     \<and> (10115 / 576 :: real) < 944741 / 14400
     \<and> Musson_600 \<noteq> Musson_2000"
  by (rule exI, rule conjI, rule default_run)
     (simp add: MUSSON_MODELS_def model_data_of_def model_avg_power_def Let_def model_names)

section \<open>The cascade\<close>

lemma round_half_even_lower: "y - 1 / 2 \<le> of_int (round_half_even y)"
proof -
  have up: "y < of_int \<lfloor>y\<rfloor> + 1" by linarith
  show ?thesis
  proof (cases "y - of_int \<lfloor>y\<rfloor> < 1 / 2")
    case True
    then show ?thesis by (simp add: round_half_even_def Let_def)
  next
    case False
    have "y - 1 / 2 \<le> of_int \<lfloor>y\<rfloor>" if "round_half_even y = \<lfloor>y\<rfloor>"
    proof -
      from False that have "y - of_int \<lfloor>y\<rfloor> = 1 / 2"
        by (simp add: round_half_even_def Let_def split: if_splits)
      then show ?thesis by simp
    qed
    moreover have "y - 1 / 2 \<le> of_int (\<lfloor>y\<rfloor> + 1)"
      using up by linarith
    moreover have "round_half_even y = \<lfloor>y\<rfloor> \<or> round_half_even y = \<lfloor>y\<rfloor> + 1"
      by (simp add: round_half_even_def Let_def)
    ultimately show ?thesis by metis
  qed
qed

lemma round_double_lower:
  assumes "0 < q"
  shows "q * (1 - 1 / 2 ^ 53) \<le> round_double q"
proof -
  define e where "e = \<lfloor>log 2 q\<rfloor>"
  define u :: real where "u = 2 powr (of_int e - 52)"
  have u: "0 < u" unfolding u_def by simp
  have "of_int e \<le> log 2 q" unfolding e_def by simp
  then have "2 powr (of_int e) \<le> 2 powr (log 2 q)" by simp
  then have lo: "2 powr (of_int e) \<le> q" using assms by simp
  have "u = 2 powr (of_int e) / 2 powr 52"
    unfolding u_def by (simp add: powr_diff)
  also have "2 powr 52 = (2::real) ^ 52"
    using powr_realpow [of 2 52] by simp
  finally have "u / 2 = 2 powr (of_int e) / 2 ^ 53" by simp
  also have "\<dots> \<le> q / 2 ^ 53"
    using lo by (simp add: divide_right_mono)
  finally have half: "u / 2 \<le> q / 2 ^ 53" .
  have rd: "round_double q = of_int (round_half_even (q / u)) * u"
    using assms by (simp add: round_double_def Let_def e_def u_def)
  have "q / u - 1 / 2 \<le> of_int (round_half_even (q / u))"
    by (rule round_half_even_lower)
  then have "(q / u - 1 / 2) * u \<le> of_int (round_half_even (q / u)) * u"
    using u by (simp add: mult_right_mono)
  moreover have "(q / u - 1 / 2) * u = q - u / 2"
    using u by (simp add: field_simps)
  ultimately have "q - u / 2 \<le> round_double q"
    unfolding rd by simp
  with half have "q - q / 2 ^ 53 \<le> round_double q" by linarith
  then show ?thesis by (simp add: algebra_simps)
qed

lemma round_double_normal:
  assumes "2 ^ n \<le> x" and "x < 2 ^ Suc n" and "n \<le> 52"
  shows "round_double x = of_int (round_half_even (x * 2 ^ (52 - n))) / 2 ^ (52 - n)"
proof -
  have pos: "0 < x"
    using assms(1) by (rule less_le_trans [rotated]) simp
  have "2 powr (of_int (int n)) \<le> x \<and> x < 2 powr (of_int (int n + 1))"
    using assms(1,2) powr_realpow [of 2 n] powr_realpow [of 2 "Suc n"]
    by (simp add: add.commute)
  then have e: "\<lfloor>log 2 x\<rfloor> = int n"
    using pos by (simp add: floor_log_eq_powr_iff)
  have "(2::real) powr (real n - 52) = 2 powr (- real (52 - n))"
    using assms(3) by (simp add: of_nat_diff)
  also have "\<dots> = 1 / 2 ^ (52 - n)"
    using powr_realpow [of 2 "52 - n"] by (simp add: powr_minus inverse_eq_divide)
  finally have u: "(2::real) powr (real n - 52) = 1 / 2 ^ (52 - n)" .
  show ?thesis
    using pos by (simp add: round_double_def Let_def e u)
qed

lemma ceiling_round_double:
  assumes "2 ^ n \<le> x" and "x < 2 ^ Suc n" and "n \<le> 52"
    and "\<lceil>real_of_int (round_half_even (x * 2 ^ (52 - n))) / 2 ^ (52 - n)\<rceil> = c"
  shows "\<lceil>round_double x\<rceil> = c"
  by (simp only: round_double_normal [OF assms(1-3)] assms(4))

lemma max_loop_mem: "max_loop key b xs \<in> set (b # xs)"
  by (induction xs arbitrary: b) auto

lemma max_loop_greatest: "x \<in> set (b # xs) \<Longrightarrow> key x \<le> key (max_loop key b xs)"
proof (induction xs arbitrary: b x)
  case Nil
  then show ?case by simp
next
  case (Cons y ys)
  have b: "key (if key b < key y then y else b) \<le> key (max_loop key (if key b < key y then y else b) ys)"
    by (rule Cons.IH) simp
  from Cons.prems consider "x = b" | "x = y" | "x \<in> set ys" by auto
  then show ?case
  proof cases
    case 1
    with b show ?thesis by (simp split: if_splits)
  next
    case 2
    with b show ?thesis by (simp split: if_splits)
  next
    case 3
    then show ?thesis by (simp add: Cons.IH)
  qed
qed

lemma py_max_Inr:
  assumes "py_max key xs = Inr m"
  shows "m \<in> set xs \<and> (\<forall>x \<in> set xs. key x \<le> key m)"
proof (cases xs)
  case Nil
  with assms show ?thesis by (simp add: py_max_def)
next
  case (Cons b ys)
  with assms have m: "m = max_loop key b ys" by (simp add: py_max_def)
  show ?thesis
    unfolding m Cons using max_loop_mem [of key b ys] max_loop_greatest [of _ b ys key]
    by blast
qed

lemma MUSSON_MODELS_names: "item \<in> set MUSSON_MODELS \<Longrightarrow> fst item \<noteq> []"
  by (auto simp: MUSSON_MODELS_def model_names)

lemma cascade_Some:
  assumes "cascade recommended h req entries = Inr (Some (count, name))"
  shows "\<not> py_truthy recommended \<and> 0 < h
    \<and> (\<exists>e \<in> set entries. d_model e = name
          \<and> (\<forall>e' \<in> set entries. d_avg_power e' \<le> d_avg_power e)
          \<and> 0 < d_avg_power e \<and> count = \<lceil>round_double (req / d_avg_power e)\<rceil>
          \<and> 1 < count)"
proof -
  from assms have c: "\<not> py_truthy recommended" "0 < h"
    by (auto simp: cascade_def split: if_splits)
  with assms obtain mp where mp: "py_max d_avg_power entries = Inr mp"
    and rest: "(if d_avg_power mp > 0 then
          bind (py_div req (d_avg_power mp)) (\<lambda>q.
          let num_furnaces = \<lceil>round_double q\<rceil> in
          Inr (if num_furnaces > 1 then Some (num_furnaces, d_model mp) else None))
        else Inr None) = Inr (Some (count, name))"
    by (auto simp: cascade_def bind_Inr_iff)
  from rest have pos: "0 < d_avg_power mp"
    by (auto split: if_splits)
  with rest have "count = \<lceil>round_double (req / d_avg_power mp)\<rceil> \<and> 1 < count
      \<and> name = d_model mp"
    by (auto simp: py_div_def Let_def split: if_splits)
  with py_max_Inr [OF mp] pos c show ?thesis by blast
qed

lemma cascade_offered:
  assumes "\<not> py_truthy recommended" and "0 < h"
    and "py_max d_avg_power entries = Inr mp" and "0 < d_avg_power mp"
    and "\<lceil>round_double (req / d_avg_power mp)\<rceil> = n" and "1 < n"
  shows "cascade recommended h req entries = Inr (Some (n, d_model mp))"
proof -
  have c: "1 < \<lceil>round_double (req / d_avg_power mp)\<rceil>"
    using assms(5,6) by simp
  have "cascade recommended h req entries
      = Inr (Some (\<lceil>round_double (req / d_avg_power mp)\<rceil>, d_model mp))"
    using assms(1-4) c by (simp add: cascade_def py_div_def Let_def)
  then show ?thesis unfolding assms(5) .
qed

lemma recommended_name_truthy:
  assumes "app area height material_type thickness_cm t_in t_out wood_type fill_fraction
             efficiency burn_hours = Inr res"
    and "recommended_model (models res) = Some m"
  shows "m \<noteq> []"
proof -
  let ?es = "all_models_data (models res)"
  note sel = app_selection [OF assms(1)]
  have names: "map d_model ?es = map fst MUSSON_MODELS"
    by (rule entries_names [OF sel(1)])
  from sel(2) assms(2) obtain i where "i < length ?es" "d_model (?es ! i) = m"
    by (auto simp: chosen_def Let_def)
  then have "m \<in> set (map d_model ?es)"
    by (auto simp: in_set_conv_nth intro!: exI [of _ i])
  then have "m \<in> fst ` set MUSSON_MODELS"
    unfolding names by simp
  then show ?thesis
    using MUSSON_MODELS_names by auto
qed

text \<open>
  Claim C5, as amended. Whenever the script returns with a cascade offer of \<open>count\<close>
  units of a model, no single model is recommended, no catalog model qualifies, the heat
  loss is positive, and the offered model is an entry with the greatest average power of
  the whole catalog, which is positive; \<open>count\<close> is the ceiling of the double that the
  division of the required power with margin by that average power returns, it is greater
  than 1, hence at least 2, and \<open>count\<close> times that average power covers the required
  power up to the rounding of that one division: it is at least the required power times
  \<open>1 - 2 ^ -53\<close>.
\<close>

theorem cascade_offer:
  assumes "app area height material_type thickness_cm t_in t_out wood_type fill_fraction
             efficiency burn_hours = Inr res"
    and "cascade_option res = Some (count, name)"
  shows "map (model_entry fill_fraction wood_type efficiency burn_hours) MUSSON_MODELS
           = map Inr (all_models_data (models res))
    \<and> recommended_model (models res) = None
    \<and> (\<forall>e \<in> set (all_models_data (models res)).
          d_avg_power e < required_power_with_margin res)
    \<and> 0 < heat_loss_kw res
    \<and> (\<exists>e \<in> set (all_models_data (models res)).
          d_model e = name
        \<and> (\<forall>e' \<in> set (all_models_data (models res)). d_avg_power e' \<le> d_avg_power e)
        \<and> 0 < d_avg_power e
        \<and> count = \<lceil>round_double (required_power_with_margin res / d_avg_power e)\<rceil>
        \<and> 1 < count \<and> 2 \<le> count
        \<and> required_power_with_margin res * (1 - 1 / 2 ^ 53)
             \<le> real_of_int count * d_avg_power e)"
proof -
  let ?es = "all_models_data (models res)"
  let ?req = "required_power_with_margin res"
  note sel = app_selection [OF assms(1)]
  from app_stages [OF assms(1)] assms(2) have
    req: "?req = heat_loss_kw res * 1.2" and
    casc: "cascade (recommended_model (models res)) (heat_loss_kw res) ?req ?es
             = Inr (Some (count, name))"
    by auto
  from cascade_Some [OF casc] obtain e where
    falsy: "\<not> py_truthy (recommended_model (models res))" and
    h: "0 < heat_loss_kw res" and
    e: "e \<in> set ?es" "d_model e = name" "\<forall>e' \<in> set ?es. d_avg_power e' \<le> d_avg_power e"
       "0 < d_avg_power e" "count = \<lceil>round_double (?req / d_avg_power e)\<rceil>" "1 < count"
    by blast
  have none: "recommended_model (models res) = None"
  proof (cases "recommended_model (models res)")
    case None
    then show ?thesis .
  next
    case (Some m)
    with recommended_name_truthy [OF assms(1) Some] falsy show ?thesis
      by (simp add: py_truthy_def)
  qed
  have reqpos: "0 < ?req" using h req by simp
  have low: "\<forall>e' \<in> set ?es. d_avg_power e' < ?req"
  proof
    fix e' assume "e' \<in> set ?es"
    with sel(2) none have "?req \<le> d_avg_power e' \<longrightarrow> d_avg_power e' \<le> 0"
      by (simp add: chosen_def Let_def)
    with reqpos show "d_avg_power e' < ?req" by linarith
  qed
  have qpos: "0 < ?req / d_avg_power e"
    using reqpos e(4) by simp
  have "?req / d_avg_power e * (1 - 1 / 2 ^ 53) \<le> round_double (?req / d_avg_power e)"
    by (rule round_double_lower [OF qpos])
  also have "\<dots> \<le> real_of_int count"
    unfolding e(5) by (rule le_of_int_ceiling)
  finally have "?req / d_avg_power e * (1 - 1 / 2 ^ 53) \<le> real_of_int count" .
  then have "?req * (1 - 1 / 2 ^ 53) / d_avg_power e \<le> real_of_int count"
    by simp
  then have cover: "?req * (1 - 1 / 2 ^ 53) \<le> real_of_int count * d_avg_power e"
    using e(4) by (simp only: pos_divide_le_eq)
  from e(6) have "2 \<le> count" by simp
  with sel(1) none low h e cover show ?thesis by blast
qed

lemma sqrt_1600: "sqrt 1600 = 40"
  using real_sqrt_abs [of 40] by simp

lemma cold_hall_run:
  "app 1600 6 Kirpich 5 22 (- 50) Khvoynye 0.8 0.85 24
   = Inr \<lparr>heat_loss_kw = 123925248 / 328475,
          required_power_with_margin = 123925248 / 328475 * 1.2,
          models = \<lparr>all_models_data =
              map (model_data_of 0.8 \<lparr>density = 350, q_mj_kg = 17\<rparr> 0.85 24) MUSSON_MODELS,
            recommended_model = None,
            best_model_avg_power = 0\<rparr>,
          cascade_option = Some (21, Musson_2000),
          refuel_time = None\<rparr>"
proof (rule app_positive_duration [OF _ wood_Khvoynye])
  show "(0::real) < 24" by simp
  show "calculate_wall_r_value Kirpich (5 / 100)
          (if Kirpich = Mineralnaya_vata_s_obshivkoy then 5 / 100 else 0.05)
        = Inr (1877 / 8100)"
    by (simp add: wall_r_homogeneous MATERIALS_def material_names)
  show "calculate_heat_loss 1600 6 (1877 / 8100) 2.5 3.5 22 (- 50) = Inr (123925248 / 328475)"
    by (simp add: calculate_heat_loss_def py_sqrt_def py_div_def sqrt_1600 Let_def)
  show "\<lparr>all_models_data =
              map (model_data_of 0.8 \<lparr>density = 350, q_mj_kg = 17\<rparr> 0.85 24) MUSSON_MODELS,
            recommended_model = None,
            best_model_avg_power = 0\<rparr>
       = foldl (select_step (123925248 / 328475 * 1.2))
     \<lparr>all_models_data = [], recommended_model = None, best_model_avg_power = 0\<rparr>
     (map (model_data_of 0.8 \<lparr>density = 350, q_mj_kg = 17\<rparr> 0.85 24) MUSSON_MODELS)"
    by (simp add: MUSSON_MODELS_def select_step_def model_data_of_def model_avg_power_def
        Let_def)
  show "cascade (recommended_model \<lparr>all_models_data =
              map (model_data_of 0.8 \<lparr>density = 350, q_mj_kg = 17\<rparr> 0.85 24) MUSSON_MODELS,
            recommended_model = None,
            best_model_avg_power = 0\<rparr>) (123925248 / 328475)
          (123925248 / 328475 * 1.2)
          (all_models_data \<lparr>all_models_data =
              map (model_data_of 0.8 \<lparr>density = 350, q_mj_kg = 17\<rparr> 0.85 24) MUSSON_MODELS,
            recommended_model = None,
            best_model_avg_power = 0\<rparr>) = Inr (Some (21, Musson_2000))"
  proof -
    let ?es = "map (model_data_of 0.8 \<lparr>density = 350, q_mj_kg = 17\<rparr> 0.85 24) MUSSON_MODELS"
    let ?mp = "model_data_of 0.8 \<lparr>density = 350, q_mj_kg = 17\<rparr> 0.85 24
                 (Musson_2000, \<lparr>volume_l = 467, duct_count = 4, duct_diameter_mm = 159\<rparr>)"
    have avg: "d_avg_power ?mp = 944741 / 43200"
      and name: "d_model ?mp = Musson_2000"
      by (simp_all add: model_data_of_def model_avg_power_def Let_def)
    have "cascade None (123925248 / 328475) (123925248 / 328475 * 1.2) ?es
            = Inr (Some (21, d_model ?mp))"
    proof (rule cascade_offered)
      show "\<not> py_truthy None" by (simp add: py_truthy_def)
      show "(0::real) < 123925248 / 328475" by simp
      show "py_max d_avg_power ?es = Inr ?mp"
        by (simp add: py_max_def MUSSON_MODELS_def model_data_of_def model_avg_power_def
            Let_def)
      show "0 < d_avg_power ?mp" unfolding avg by simp
      show "\<lceil>round_double (123925248 / 328475 * 1.2 / d_avg_power ?mp)\<rceil> = 21"
        unfolding avg
        by (rule ceiling_round_double [of 4]) (simp_all add: round_half_even_def)
      show "(1::int) < 21" by simp
    qed
    then have "cascade None (123925248 / 328475) (123925248 / 328475 * 1.2) ?es
            = Inr (Some (21, Musson_2000))"
      by (simp only: name)
    then show ?thesis by simp
  qed
  show "refuel (recommended_model \<lparr>all_models_data =
              map (model_data_of 0.8 \<lparr>density = 350, q_mj_kg = 17\<rparr> 0.85 24) MUSSON_MODELS,
            recommended_model = None,
            best_model_avg_power = 0\<rparr>)
          (123925248 / 328475 * 1.2)
          (all_models_data \<lparr>all_models_data =
              map (model_data_of 0.8 \<lparr>density = 350, q_mj_kg = 17\<rparr> 0.85 24) MUSSON_MODELS,
            recommended_model = None,
            best_model_avg_power = 0\<rparr>) = Inr None"
    by (simp add: refuel_def)
qed

theorem cascade_offer_witness:
  "\<exists>res. app 1600 6 Kirpich 5 22 (- 50) Khvoynye 0.8 0.85 24 = Inr res
    \<and> cascade_option res = Some (21, Musson_2000)
    \<and> map (model_entry 0.8 Khvoynye 0.85 24) MUSSON_MODELS
           = map Inr (all_models_data (models res))
    \<and> recommended_model (models res) = None
    \<and> (\<forall>e \<in> set (all_models_data (models res)).
          d_avg_power e < required_power_with_margin res)
    \<and> 0 < heat_loss_kw res
    \<and> (\<exists>e \<in> set (all_models_data (models res)).
          d_model e = Musson_2000
        \<and> (\<forall>e' \<in> set (all_models_data (models res)). d_avg_power e' \<le> d_avg_power e)
        \<and> 0 < d_avg_power e
        \<and> 21 = \<lceil>round_double (required_power_with_margin res / d_avg_power e)\<rceil>
        \<and> (1::int) < 21 \<and> (2::int) \<le> 21
        \<and> required_power_with_margin res * (1 - 1 / 2 ^ 53)
             \<le> real_of_int 21 * d_avg_power e)"
proof -
  have "\<exists>res. app 1600 6 Kirpich 5 22 (- 50) Khvoynye 0.8 0.85 24 = Inr res
      \<and> cascade_option res = Some (21, Musson_2000)"
    by (rule exI, rule conjI, rule cold_hall_run) simp
  then obtain res where run: "app 1600 6 Kirpich 5 22 (- 50) Khvoynye 0.8 0.85 24 = Inr res"
    and offer: "cascade_option res = Some (21, Musson_2000)"
    by blast
  from cascade_offer [OF run offer] run offer
  show ?thesis by blast
qed

text \<open>
  Claim C5 as stated fails in the cascade block on the values the script holds, as doubles,
  for area 1849, height 2.4, sandwich panel 71 cm, 52 and -18 degrees, birch, 86 % fill,
  72 % efficiency and 18 h: heat loss \<open>6358836383242519 / 2 ^ 46\<close> (90.3645), required
  power \<open>7630603659891023 / 2 ^ 46\<close> (108.43740000000001) and the five averages below,
  the greatest being \<open>5087069106594015 / 2 ^ 47\<close> (36.1458). The exact quotient is above
  3 by less than half a unit in the last place, the division returns 3.0, three units are
  offered, three times the average is below the required power, and the ceiling of the
  exact quotient is 4. The block reads only
  the names and the averages of the entries, so their curves are left empty here.
\<close>

theorem cascade_coverage_counterexample:
  "cascade None (6358836383242519 / 2 ^ 46) (7630603659891023 / 2 ^ 46)
     [\<lparr>d_model = Musson_300, d_time = [], d_power = [],
        d_avg_power = 6710138264800669 / 2 ^ 50\<rparr>,
      \<lparr>d_model = Musson_600, d_time = [], d_power = [],
        d_avg_power = 2723270399675597 / 2 ^ 48\<rparr>,
      \<lparr>d_model = Musson_1000, d_time = [], d_power = [],
        d_avg_power = 8714465278961909 / 2 ^ 49\<rparr>,
      \<lparr>d_model = Musson_1500, d_time = [], d_power = [],
        d_avg_power = 1693874188598221 / 2 ^ 46\<rparr>,
      \<lparr>d_model = Musson_2000, d_time = [], d_power = [],
        d_avg_power = 5087069106594015 / 2 ^ 47\<rparr>]
   = Inr (Some (3, Musson_2000))
   \<and> real_of_int 3 * (5087069106594015 / 2 ^ 47) < 7630603659891023 / 2 ^ 46
   \<and> \<lceil>7630603659891023 / 2 ^ 46 / (5087069106594015 / 2 ^ 47 :: real)\<rceil> = 4"
proof (intro conjI)
  let ?mp = "\<lparr>d_model = Musson_2000, d_time = [], d_power = [],
        d_avg_power = 5087069106594015 / 2 ^ 47\<rparr>"
  have "cascade None (6358836383242519 / 2 ^ 46) (7630603659891023 / 2 ^ 46)
     [\<lparr>d_model = Musson_300, d_time = [], d_power = [],
        d_avg_power = 6710138264800669 / 2 ^ 50\<rparr>,
      \<lparr>d_model = Musson_600, d_time = [], d_power = [],
        d_avg_power = 2723270399675597 / 2 ^ 48\<rparr>,
      \<lparr>d_model = Musson_1000, d_time = [], d_power = [],
        d_avg_power = 8714465278961909 / 2 ^ 49\<rparr>,
      \<lparr>d_model = Musson_1500, d_time = [], d_power = [],
        d_avg_power = 1693874188598221 / 2 ^ 46\<rparr>,
      ?mp]
   = Inr (Some (3, d_model ?mp))"
  proof (rule cascade_offered)
    show "\<not> py_truthy None" by (simp add: py_truthy_def)
    show "(0::real) < 6358836383242519 / 2 ^ 46" by simp
    show "py_max d_avg_power
     [\<lparr>d_model = Musson_300, d_time = [], d_power = [],
        d_avg_power = 6710138264800669 / 2 ^ 50\<rparr>,
      \<lparr>d_model = Musson_600, d_time = [], d_power = [],
        d_avg_power = 2723270399675597 / 2 ^ 48\<rparr>,
      \<lparr>d_model = Musson_1000, d_time = [], d_power = [],
        d_avg_power = 8714465278961909 / 2 ^ 49\<rparr>,
      \<lparr>d_model = Musson_1500, d_time = [], d_power = [],
        d_avg_power = 1693874188598221 / 2 ^ 46\<rparr>,
      ?mp] = Inr ?mp"
      by (simp add: py_max_def)
    show "0 < d_avg_power ?mp" by simp
    show "\<lceil>round_double (7630603659891023 / 2 ^ 46 / d_avg_power ?mp)\<rceil> = 3"
      unfolding model_data.simps
      by (rule ceiling_round_double [of 1]) (simp_all add: round_half_even_def)
    show "(1::int) < 3" by simp
  qed
  then have "cascade None (6358836383242519 / 2 ^ 46) (7630603659891023 / 2 ^ 46)
     [\<lparr>d_model = Musson_300, d_time = [], d_power = [],
        d_avg_power = 6710138264800669 / 2 ^ 50\<rparr>,
      \<lparr>d_model = Musson_600, d_time = [], d_power = [],
        d_avg_power = 2723270399675597 / 2 ^ 48\<rparr>,
      \<lparr>d_model = Musson_1000, d_time = [], d_power = [],
        d_avg_power = 8714465278961909 / 2 ^ 49\<rparr>,
      \<lparr>d_model = Musson_1500, d_time = [], d_power = [],
        d_avg_power = 1693874188598221 / 2 ^ 46\<rparr>,
      ?mp]
   = Inr (Some (3, Musson_2000))"
    by (simp only: model_data.simps)
  then show "cascade None (6358836383242519 / 2 ^ 46) (7630603659891023 / 2 ^ 46)
     [\<lparr>d_model = Musson_300, d_time = [], d_power = [],
        d_avg_power = 6710138264800669 / 2 ^ 50\<rparr>,
      \<lparr>d_model = Musson_600, d_time = [], d_power = [],
        d_avg_power = 2723270399675597 / 2 ^ 48\<rparr>,
      \<lparr>d_model = Musson_1000, d_time = [], d_power = [],
        d_avg_power = 8714465278961909 / 2 ^ 49\<rparr>,
      \<lparr>d_model = Musson_1500, d_time = [], d_power = [],
        d_avg_power = 1693874188598221 / 2 ^ 46\<rparr>,
      \<lparr>d_model = Musson_2000, d_time = [], d_power = [],
        d_avg_power = 5087069106594015 / 2 ^ 47\<rparr>]
   = Inr (Some (3, Musson_2000))" .
  show "real_of_int 3 * (5087069106594015 / 2 ^ 47) < (7630603659891023 / 2 ^ 46 :: real)"
    by simp
  show "\<lceil>7630603659891023 / 2 ^ 46 / (5087069106594015 / 2 ^ 47 :: real)\<rceil> = 4"
    by simp
qed

section \<open>The refuel time\<close>

lemma refuel_loop_zip:
  "length ps = length ts \<Longrightarrow>
   refuel_loop req r0 (zip ts ps)
     = (let k = length (takeWhile (\<lambda>p. req \<le> p) ps) in if k = 0 then r0 else ts ! (k - 1))"
proof (induction ps ts arbitrary: r0 rule: list_induct2)
  case Nil
  then show ?case by simp
next
  case (Cons p ps t ts)
  show ?case
  proof (cases "req \<le> p")
    case True
    then show ?thesis
      by (simp add: Cons.IH Let_def nth_Cons')
  next
    case False
    then show ?thesis by simp
  qed
qed

lemma takeWhile_prefix_holds:
  "j < length (takeWhile P xs) \<Longrightarrow> P (xs ! j)"
  using takeWhile_nth [of j P xs] nth_mem [of j "takeWhile P xs"] set_takeWhileD [of _ P xs]
  by metis

lemma model_entry_curve:
  assumes "model_entry f w e b item = Inr en"
  shows "\<exists>total. get_furnace_power_curve (volume_l (snd item)) f w e b
           = Inr (d_time en, d_power en, total)"
  using assms by (cases item) (auto simp: model_entry_def bind_Inr_iff)

lemma get_furnace_power_curve_wood:
  assumes "get_furnace_power_curve v f w e b = Inr c"
  shows "\<exists>wood. map_of WOOD_TYPES w = Some wood"
  using assms
  by (cases "map_of WOOD_TYPES w")
     (simp_all add: get_furnace_power_curve_def Let_def py_getitem_def bind_def)

lemma model_entry_positive_average:
  assumes "model_entry f w e b item = Inr en" and "0 < d_avg_power en"
  shows "0 < b \<and> (\<exists>wood. map_of WOOD_TYPES w = Some wood \<and> en = model_data_of f wood e b item)"
proof -
  obtain name params where item: "item = (name, params)" by (cases item)
  from assms(1) obtain ts ps total avg where
    c: "get_furnace_power_curve (volume_l params) f w e b = Inr (ts, ps, total)" and
    a: "(if b > 0 then py_div total b else Inr 0) = Inr avg" and
    en: "en = \<lparr>d_model = name, d_time = ts, d_power = ps, d_avg_power = avg\<rparr>"
    unfolding item model_entry_def by (auto simp: bind_Inr_iff)
  have b: "0 < b"
  proof (rule ccontr)
    assume "\<not> 0 < b"
    with a have "avg = 0" by simp
    with en assms(2) show False by simp
  qed
  from get_furnace_power_curve_wood [OF c] obtain wood where
    wood: "map_of WOOD_TYPES w = Some wood" by blast
  from model_entry_positive_duration [OF b wood, of f e item] assms(1)
  have "en = model_data_of f wood e b item" by simp
  with b wood show ?thesis by blast
qed

lemma grid_nth:
  assumes "k < length [0..n]"
  shows "map (\<lambda>i. real_of_int i * 0.5) [0..n] ! k = real k * 0.5"
proof -
  from assms have "int k \<le> n" by simp
  then have "[0..n] ! k = int k" by (simp add: nth_upto)
  with assms show ?thesis by simp
qed

lemma find_distinct:
  assumes "distinct (map f xs)" and "i < length xs"
  shows "find (\<lambda>x. f x = f (xs ! i)) xs = Some (xs ! i)"
  using assms
proof (induction xs arbitrary: i)
  case Nil
  then show ?case by simp
next
  case (Cons x xs)
  show ?case
  proof (cases i)
    case 0
    then show ?thesis by simp
  next
    case (Suc j)
    with Cons.prems have j: "j < length xs" and d: "distinct (map f xs)"
      and x: "f x \<notin> f ` set xs" by simp_all
    from j x have "f x \<noteq> f (xs ! j)" by (metis imageI nth_mem)
    with Cons.IH [OF d j] Suc show ?thesis by simp
  qed
qed

lemma MUSSON_MODELS_distinct: "distinct (map fst MUSSON_MODELS)"
  by (simp add: MUSSON_MODELS_def model_names)


lemma last_sufficient_sample:
  assumes len: "length ps = length ts" and ne: "ps \<noteq> []" and first: "req \<le> ps ! 0"
    and mono: "\<And>j k. j \<le> k \<Longrightarrow> k < length ts \<Longrightarrow> ts ! j \<le> ts ! k"
  shows "\<exists>i < length ts.
           refuel_loop req r0 (zip ts ps) = ts ! i
         \<and> (\<forall>j \<le> i. req \<le> ps ! j)
         \<and> (Suc i < length ts \<longrightarrow> ps ! Suc i < req)
         \<and> (\<forall>k < length ts. (\<forall>j \<le> k. req \<le> ps ! j) \<longrightarrow> ts ! k \<le> ts ! i)"
proof -
  define k0 where "k0 = length (takeWhile (\<lambda>p. req \<le> p) ps)"
  have k0_pos: "0 < k0"
    using ne first unfolding k0_def by (cases ps) simp_all
  have k0_le: "k0 \<le> length ts"
    unfolding k0_def len [symmetric] by (rule length_takeWhile_le)
  have good: "req \<le> ps ! j" if "j < k0" for j
    using that unfolding k0_def by (rule takeWhile_prefix_holds)
  have stop: "\<not> req \<le> ps ! k0" if "k0 < length ts"
    using that nth_length_takeWhile [of "\<lambda>p. req \<le> p" ps] unfolding k0_def len by simp
  have val: "refuel_loop req r0 (zip ts ps) = ts ! (k0 - 1)"
    using k0_pos by (simp add: refuel_loop_zip [OF len] k0_def Let_def)
  have upper: "ts ! k \<le> ts ! (k0 - 1)"
    if k: "k < length ts" and all: "\<forall>j \<le> k. req \<le> ps ! j" for k
  proof -
    have "k < k0"
    proof (rule ccontr)
      assume "\<not> k < k0"
      then have "k0 \<le> k" by simp
      with k have "k0 < length ts" by simp
      from stop [OF this] all \<open>k0 \<le> k\<close> show False by simp
    qed
    then have "k \<le> k0 - 1" by simp
    moreover have "k0 - 1 < length ts" using k0_pos k0_le by simp
    ultimately show ?thesis by (rule mono)
  qed
  have "k0 - 1 < length ts" using k0_pos k0_le by simp
  moreover have "\<forall>j \<le> k0 - 1. req \<le> ps ! j"
    using good k0_pos by simp
  moreover have "Suc (k0 - 1) < length ts \<longrightarrow> ps ! Suc (k0 - 1) < req"
    using stop k0_pos by auto
  ultimately show ?thesis
    using val upper by (intro exI [of _ "k0 - 1"]) simp
qed

lemma model_data_of_curve:
  assumes "0 < b" and "0 < model_avg_power f wood e b (volume_l (snd item))"
    and "req \<le> model_avg_power f wood e b (volume_l (snd item))"
    and "en = model_data_of f wood e b item"
  shows "length (d_power en) = length (d_time en)"
    and "d_power en \<noteq> []"
    and "req \<le> d_power en ! 0"
    and "\<And>j k. j \<le> k \<Longrightarrow> k < length (d_time en) \<Longrightarrow> d_time en ! j \<le> d_time en ! k"
proof -
  let ?avg = "model_avg_power f wood e b (volume_l (snd item))"
  let ?grid = "map (\<lambda>i. real_of_int i * 0.5) [0..\<lfloor>2 * b\<rfloor>]"
  have t: "d_time en = ?grid"
    and p: "d_power en = map (\<lambda>t. max 0 (?avg * 2 * (1 - t / b))) ?grid"
    unfolding assms(4) by (simp_all add: model_data_of_def Let_def)
  have n: "0 \<le> \<lfloor>2 * b\<rfloor>" using assms(1) by simp
  show "length (d_power en) = length (d_time en)"
    unfolding t p by simp
  show "d_power en \<noteq> []"
    unfolding p by (simp add: upto_0_nonempty [OF n])
  have "d_power en ! 0 = max 0 (?avg * 2)"
    unfolding p by (simp add: upto_0_nonempty [OF n])
  also have "\<dots> = ?avg * 2" using assms(2) by simp
  finally have "d_power en ! 0 = ?avg * 2" .
  with assms(2,3) show "req \<le> d_power en ! 0" by simp
  fix j k :: nat
  assume jk: "j \<le> k" and k: "k < length (d_time en)"
  then have kl: "k < length [0..\<lfloor>2 * b\<rfloor>]" and jl: "j < length [0..\<lfloor>2 * b\<rfloor>]"
    unfolding t by simp_all
  show "d_time en ! j \<le> d_time en ! k"
    unfolding t grid_nth [OF kl] grid_nth [OF jl] using jk by simp
qed


lemma recommended_entry:
  assumes "app area height material_type thickness_cm t_in t_out wood_type fill_fraction
             efficiency burn_hours = Inr res"
    and "recommended_model (models res) = Some m"
  shows "\<exists>i < length MUSSON_MODELS. \<exists>wood.
           fst (MUSSON_MODELS ! i) = m
         \<and> 0 < burn_hours \<and> map_of WOOD_TYPES wood_type = Some wood
         \<and> all_models_data (models res) ! i
             = model_data_of fill_fraction wood efficiency burn_hours (MUSSON_MODELS ! i)
         \<and> find (\<lambda>item. d_model item = m) (all_models_data (models res))
             = Some (all_models_data (models res) ! i)
         \<and> model_entry fill_fraction wood_type efficiency burn_hours (MUSSON_MODELS ! i)
             = Inr (all_models_data (models res) ! i)
         \<and> 0 < d_avg_power (all_models_data (models res) ! i)
         \<and> required_power_with_margin res \<le> d_avg_power (all_models_data (models res) ! i)"
proof -
  let ?es = "all_models_data (models res)"
  let ?req = "required_power_with_margin res"
  note sel = app_selection [OF assms(1)]
  have names: "map d_model ?es = map fst MUSSON_MODELS"
    by (rule entries_names [OF sel(1)])
  have len: "length ?es = length MUSSON_MODELS"
    by (rule map_eq_imp_length_eq [OF names])
  from sel(2) assms(2) obtain i where i: "i < length ?es" "d_model (?es ! i) = m"
    "d_avg_power (?es ! i) = best_model_avg_power (models res)"
    "0 < best_model_avg_power (models res)"
    "?req \<le> best_model_avg_power (models res)"
    by (auto simp: chosen_def Let_def)
  have "map d_model ?es ! i = map fst MUSSON_MODELS ! i"
    by (simp only: names)
  then have name: "fst (MUSSON_MODELS ! i) = m"
    using i(1,2) len by simp
  have "map (model_entry fill_fraction wood_type efficiency burn_hours) MUSSON_MODELS ! i
      = map Inr ?es ! i"
    by (simp only: sel(1))
  then have en: "model_entry fill_fraction wood_type efficiency burn_hours (MUSSON_MODELS ! i)
      = Inr (?es ! i)"
    using i(1) len by simp
  have pos: "0 < d_avg_power (?es ! i)" using i(3,4) by simp
  from model_entry_positive_average [OF en pos] obtain wood where
    b: "0 < burn_hours" and wood: "map_of WOOD_TYPES wood_type = Some wood" and
    closed: "?es ! i = model_data_of fill_fraction wood efficiency burn_hours (MUSSON_MODELS ! i)"
    by blast
  have "distinct (map d_model ?es)"
    unfolding names by (rule MUSSON_MODELS_distinct)
  from find_distinct [OF this i(1)] have
    found: "find (\<lambda>item. d_model item = m) ?es = Some (?es ! i)"
    unfolding i(2) .
  from i(1) len name b wood closed found en pos i(3,5) show ?thesis
    by (intro exI [of _ i] exI [of _ wood]) simp
qed

text \<open>
  Claim C6. Whenever the script returns with a recommended model, the entry the script
  looks up for it holds the power curve of that catalog model, and the refuel time is a
  sample time \<open>t\<close> of that curve such that the power at every sample up to and including
  \<open>t\<close> is at least the required power with margin, the next sample (if there is one) is
  below it, and every sample time with that property is at most \<open>t\<close>: it is the largest
  such sample time, where the walk stops.
\<close>

theorem refuel_time_is_last_sufficient_sample:
  assumes "app area height material_type thickness_cm t_in t_out wood_type fill_fraction
             efficiency burn_hours = Inr res"
    and "recommended_model (models res) = Some m"
  shows "\<exists>e params total i.
           (m, params) \<in> set MUSSON_MODELS
         \<and> find (\<lambda>item. d_model item = m) (all_models_data (models res)) = Some e
         \<and> get_furnace_power_curve (volume_l params) fill_fraction wood_type efficiency
              burn_hours = Inr (d_time e, d_power e, total)
         \<and> length (d_power e) = length (d_time e) \<and> i < length (d_time e)
         \<and> refuel_time res = Some (d_time e ! i)
         \<and> (\<forall>j \<le> i. required_power_with_margin res \<le> d_power e ! j)
         \<and> (Suc i < length (d_time e) \<longrightarrow> d_power e ! Suc i < required_power_with_margin res)
         \<and> (\<forall>k < length (d_time e).
               (\<forall>j \<le> k. required_power_with_margin res \<le> d_power e ! j)
               \<longrightarrow> d_time e ! k \<le> d_time e ! i)"
proof -
  let ?es = "all_models_data (models res)"
  let ?req = "required_power_with_margin res"
  from recommended_entry [OF assms] obtain n wood where
    n: "n < length MUSSON_MODELS" "fst (MUSSON_MODELS ! n) = m" and
    b: "0 < burn_hours" and
    closed: "?es ! n = model_data_of fill_fraction wood efficiency burn_hours (MUSSON_MODELS ! n)"
    and found: "find (\<lambda>item. d_model item = m) ?es = Some (?es ! n)"
    and en: "model_entry fill_fraction wood_type efficiency burn_hours (MUSSON_MODELS ! n)
              = Inr (?es ! n)"
    and pos: "0 < d_avg_power (?es ! n)" and req: "?req \<le> d_avg_power (?es ! n)"
    by blast
  let ?e = "?es ! n"
  let ?params = "snd (MUSSON_MODELS ! n)"
  have avg: "d_avg_power ?e
      = model_avg_power fill_fraction wood efficiency burn_hours (volume_l ?params)"
    unfolding closed by (simp add: model_data_of_def Let_def)
  note curve = model_data_of_curve [OF b pos [unfolded avg] req [unfolded avg] closed]
  from last_sufficient_sample [OF curve, where ?r0.0 = 0]
  obtain i where i: "i < length (d_time ?e)"
    "refuel_loop ?req 0 (zip (d_time ?e) (d_power ?e)) = d_time ?e ! i"
    "\<forall>j \<le> i. ?req \<le> d_power ?e ! j"
    "Suc i < length (d_time ?e) \<longrightarrow> d_power ?e ! Suc i < ?req"
    "\<forall>k < length (d_time ?e). (\<forall>j \<le> k. ?req \<le> d_power ?e ! j)
        \<longrightarrow> d_time ?e ! k \<le> d_time ?e ! i"
    by blast
  have m: "m \<noteq> []" by (rule recommended_name_truthy [OF assms])
  from app_stages [OF assms(1)] have
    "refuel (recommended_model (models res)) ?req ?es = Inr (refuel_time res)"
    by blast
  then have rt: "refuel_time res = Some (refuel_loop ?req 0 (zip (d_time ?e) (d_power ?e)))"
    using m found by (simp add: assms(2) refuel_def next_model_def)
  have mem: "(m, ?params) \<in> set MUSSON_MODELS"
    using n nth_mem [OF n(1)] by (metis prod.collapse)
  from model_entry_curve [OF en] obtain total where
    c: "get_furnace_power_curve (volume_l ?params) fill_fraction wood_type efficiency
          burn_hours = Inr (d_time ?e, d_power ?e, total)"
    by blast
  from mem found c curve(1) i rt show ?thesis
    by (intro exI [of _ ?e] exI [of _ ?params] exI [of _ total] exI [of _ i]) simp
qed

theorem refuel_time_is_last_sufficient_sample_witness:
  "\<exists>res. app 100 2.5 Kirpich 40 22 (- 20) Khvoynye 0.8 0.85 8 = Inr res
     \<and> recommended_model (models res) = Some Musson_2000
     \<and> refuel_time res = Some 7
     \<and> (\<exists>e params total i.
           (Musson_2000, params) \<in> set MUSSON_MODELS
         \<and> find (\<lambda>item. d_model item = Musson_2000) (all_models_data (models res)) = Some e
         \<and> get_furnace_power_curve (volume_l params) 0.8 Khvoynye 0.85 8
              = Inr (d_time e, d_power e, total)
         \<and> length (d_power e) = length (d_time e) \<and> i < length (d_time e)
         \<and> refuel_time res = Some (d_time e ! i)
         \<and> (\<forall>j \<le> i. required_power_with_margin res \<le> d_power e ! j)
         \<and> (Suc i < length (d_time e) \<longrightarrow> d_power e ! Suc i < required_power_with_margin res)
         \<and> (\<forall>k < length (d_time e).
               (\<forall>j \<le> k. required_power_with_margin res \<le> d_power e ! j)
               \<longrightarrow> d_time e ! k \<le> d_time e ! i))"
proof -
  have "\<exists>res. app 100 2.5 Kirpich 40 22 (- 20) Khvoynye 0.8 0.85 8 = Inr res
      \<and> recommended_model (models res) = Some Musson_2000 \<and> refuel_time res = Some 7"
    by (rule exI, rule conjI, rule default_run) simp
  then obtain res where run: "app 100 2.5 Kirpich 40 22 (- 20) Khvoynye 0.8 0.85 8 = Inr res"
    and rec: "recommended_model (models res) = Some Musson_2000"
    and rt: "refuel_time res = Some 7"
    by blast
  from refuel_time_is_last_sufficient_sample [OF run rec] run rec rt
  show ?thesis by blast
qed

section \<open>No heating needed\<close>

lemma wall_r_returns: "\<exists>wr. calculate_wall_r_value material_type wall_thickness_m w = Inr wr"
  by (cases "material_type = Mineralnaya_vata_s_obshivkoy")
     (simp_all add: wall_r_composite wall_r_homogeneous)

lemma heat_loss_not_needed:
  "t_in \<le> t_out \<Longrightarrow> calculate_heat_loss area height wr fr cr t_in t_out = Inr 0"
  by (simp add: calculate_heat_loss_def)

lemma model_avg_power_scale:
  "model_avg_power f wood e b v = v * model_avg_power f wood e b 1"
  by (simp add: model_avg_power_def)

lemma model_avg_power_unit:
  assumes "0 < f" and "0 < e" and "0 < b" and "map_of WOOD_TYPES w = Some wood"
  shows "0 < model_avg_power f wood e b 1"
  using assms(1-3) WOOD_TYPES_positive [OF assms(4)] by (simp add: model_avg_power_def)

lemma largest_model_selected:
  assumes "0 < f" and "0 < e" and "0 < b" and "map_of WOOD_TYPES w = Some wood"
  shows "foldl (select_step 0)
           \<lparr>all_models_data = [], recommended_model = None, best_model_avg_power = 0\<rparr>
           (map (model_data_of f wood e b) MUSSON_MODELS)
         = \<lparr>all_models_data = map (model_data_of f wood e b) MUSSON_MODELS,
            recommended_model = Some Musson_2000,
            best_model_avg_power = model_avg_power f wood e b 467\<rparr>"
proof -
  define c where "c = model_avg_power f wood e b 1"
  have c: "0 < c" unfolding c_def by (rule model_avg_power_unit [OF assms])
  have avg: "model_avg_power f wood e b v = v * c" for v
    unfolding c_def by (rule model_avg_power_scale)
  have d: "d_avg_power (model_data_of f wood e b item) = volume_l (snd item) * c" for item
    by (simp add: model_data_of_def Let_def avg)
  have m: "d_model (model_data_of f wood e b item) = fst item" for item
    by (simp add: model_data_of_def Let_def)
  show ?thesis
    using c by (simp add: MUSSON_MODELS_def select_step_def Let_def d m avg)
qed

lemma largest_model_greatest:
  assumes "0 < f" and "0 < e" and "0 < b" and "map_of WOOD_TYPES w = Some wood"
    and "en \<in> set (map (model_data_of f wood e b) MUSSON_MODELS)"
  shows "d_avg_power en \<le> model_avg_power f wood e b 467"
proof -
  define c where "c = model_avg_power f wood e b 1"
  have c: "0 < c" unfolding c_def by (rule model_avg_power_unit [OF assms(1-4)])
  have avg: "model_avg_power f wood e b v = v * c" for v
    unfolding c_def by (rule model_avg_power_scale)
  have d: "d_avg_power (model_data_of f wood e b item) = volume_l (snd item) * c" for item
    by (simp add: model_data_of_def Let_def avg)
  from assms(5) c show ?thesis
    by (auto simp: MUSSON_MODELS_def d avg)
qed

lemma refuel_loop_all_sufficient:
  assumes "length ps = length ts" and "ts \<noteq> []" and "\<forall>p \<in> set ps. req \<le> p"
  shows "refuel_loop req r0 (zip ts ps) = last ts"
proof -
  have tw: "takeWhile ((\<le>) req) ps = ps"
    using assms(3) by (simp add: takeWhile_eq_all_conv)
  have "ps \<noteq> []" using assms(1,2) by auto
  then have "refuel_loop req r0 (zip ts ps) = ts ! (length ts - 1)"
    using assms(1,2) by (simp add: refuel_loop_zip Let_def tw)
  then show ?thesis
    using assms(2) by (simp add: last_conv_nth)
qed

lemma grid_last:
  assumes "0 \<le> n"
  shows "last (map (\<lambda>i. real_of_int i * 0.5) [0..n]) = real_of_int n / 2"
proof -
  have "[0..n] = [0..n - 1] @ [n]"
    using assms by (simp add: upto_rec2)
  then show ?thesis by simp
qed

lemma full_burn_refuel:
  assumes "0 < b"
  shows "refuel (Some Musson_2000) 0 (map (model_data_of f wood e b) MUSSON_MODELS)
         = Inr (Some (real_of_int \<lfloor>2 * b\<rfloor> / 2))"
proof -
  let ?en = "model_data_of f wood e b
               (Musson_2000, \<lparr>volume_l = 467, duct_count = 4, duct_diameter_mm = 159\<rparr>)"
  have n: "0 \<le> \<lfloor>2 * b\<rfloor>" using assms by simp
  have found: "next_model (map (model_data_of f wood e b) MUSSON_MODELS) Musson_2000 = Inr ?en"
    by (simp add: next_model_def MUSSON_MODELS_def model_data_of_def Let_def model_names)
  have t: "d_time ?en = map (\<lambda>i. real_of_int i * 0.5) [0..\<lfloor>2 * b\<rfloor>]"
    by (simp add: model_data_of_def Let_def)
  have "refuel_loop 0 0 (zip (d_time ?en) (d_power ?en)) = last (d_time ?en)"
  proof (rule refuel_loop_all_sufficient)
    show "length (d_power ?en) = length (d_time ?en)"
      by (simp add: model_data_of_def Let_def)
    show "d_time ?en \<noteq> []"
      unfolding t by (simp add: upto_0_nonempty [OF n])
    show "\<forall>p \<in> set (d_power ?en). 0 \<le> p"
      by (auto simp: model_data_of_def Let_def)
  qed
  also have "\<dots> = real_of_int \<lfloor>2 * b\<rfloor> / 2"
    unfolding t by (rule grid_last [OF n])
  finally show ?thesis
    using found by (simp add: refuel_def model_names)
qed

lemma no_heating_run:
  assumes "t_in \<le> t_out" and "0 < fill_fraction" and "0 < efficiency" and "0 < burn_hours"
    and "map_of WOOD_TYPES wood_type = Some wood"
  shows "app area height material_type thickness_cm t_in t_out wood_type fill_fraction
           efficiency burn_hours
         = Inr \<lparr>heat_loss_kw = 0,
                required_power_with_margin = 0 * 1.2,
                models = \<lparr>all_models_data =
                    map (model_data_of fill_fraction wood efficiency burn_hours) MUSSON_MODELS,
                  recommended_model = Some Musson_2000,
                  best_model_avg_power =
                    model_avg_power fill_fraction wood efficiency burn_hours 467\<rparr>,
                cascade_option = None,
                refuel_time = Some (real_of_int \<lfloor>2 * burn_hours\<rfloor> / 2)\<rparr>"
proof -
  obtain wr where wr: "calculate_wall_r_value material_type (thickness_cm / 100)
           (if material_type = Mineralnaya_vata_s_obshivkoy then thickness_cm / 100 else 0.05)
           = Inr wr"
    using wall_r_returns by blast
  show ?thesis
  proof (rule app_positive_duration [OF assms(4,5) wr heat_loss_not_needed [OF assms(1)]])
    show "\<lparr>all_models_data =
             map (model_data_of fill_fraction wood efficiency burn_hours) MUSSON_MODELS,
           recommended_model = Some Musson_2000,
           best_model_avg_power = model_avg_power fill_fraction wood efficiency burn_hours 467\<rparr>
        = foldl (select_step (0 * 1.2))
            \<lparr>all_models_data = [], recommended_model = None, best_model_avg_power = 0\<rparr>
            (map (model_data_of fill_fraction wood efficiency burn_hours) MUSSON_MODELS)"
      using largest_model_selected [OF assms(2-5)] by simp
    show "cascade (recommended_model \<lparr>all_models_data =
             map (model_data_of fill_fraction wood efficiency burn_hours) MUSSON_MODELS,
           recommended_model = Some Musson_2000,
           best_model_avg_power = model_avg_power fill_fraction wood efficiency burn_hours 467\<rparr>)
          0 (0 * 1.2)
          (all_models_data \<lparr>all_models_data =
             map (model_data_of fill_fraction wood efficiency burn_hours) MUSSON_MODELS,
           recommended_model = Some Musson_2000,
           best_model_avg_power = model_avg_power fill_fraction wood efficiency burn_hours 467\<rparr>)
          = Inr None"
      by (simp add: cascade_def)
    show "refuel (recommended_model \<lparr>all_models_data =
             map (model_data_of fill_fraction wood efficiency burn_hours) MUSSON_MODELS,
           recommended_model = Some Musson_2000,
           best_model_avg_power = model_avg_power fill_fraction wood efficiency burn_hours 467\<rparr>)
          (0 * 1.2)
          (all_models_data \<lparr>all_models_data =
             map (model_data_of fill_fraction wood efficiency burn_hours) MUSSON_MODELS,
           recommended_model = Some Musson_2000,
           best_model_avg_power = model_avg_power fill_fraction wood efficiency burn_hours 467\<rparr>)
          = Inr (Some (real_of_int \<lfloor>2 * burn_hours\<rfloor> / 2))"
      using full_burn_refuel [OF assms(4)] by simp
  qed
qed


text \<open>
  Claim C10, as amended. For every input with \<open>t_in \<le> t_out\<close>, a positive fill
  fraction, efficiency and burn duration and a wood type of the table, the script returns
  with heat loss 0 and required power 0, it still recommends a model, "Musson 2000", which
  has the greatest average power of the catalog, it offers no cascade, and the refuel time
  is the last sample time of that model's curve, \<open>floor (2 * duration) / 2\<close>; this is the
  full burn duration when the duration is a whole number of half hours.
\<close>

theorem no_heating_needed:
  assumes "t_in \<le> t_out" and "0 < fill_fraction" and "0 < efficiency" and "0 < burn_hours"
    and "map_of WOOD_TYPES wood_type = Some wood"
  shows "\<exists>res. app area height material_type thickness_cm t_in t_out wood_type fill_fraction
                efficiency burn_hours = Inr res
     \<and> heat_loss_kw res = 0 \<and> required_power_with_margin res = 0
     \<and> recommended_model (models res) = Some Musson_2000
     \<and> (\<exists>e \<in> set (all_models_data (models res)).
           d_model e = Musson_2000
         \<and> (\<forall>e' \<in> set (all_models_data (models res)). d_avg_power e' \<le> d_avg_power e)
         \<and> d_time e \<noteq> [] \<and> refuel_time res = Some (last (d_time e)))
     \<and> cascade_option res = None
     \<and> refuel_time res = Some (real_of_int \<lfloor>2 * burn_hours\<rfloor> / 2)
     \<and> (2 * burn_hours = real_of_int \<lfloor>2 * burn_hours\<rfloor> \<longrightarrow> refuel_time res = Some burn_hours)"
proof -
  let ?es = "map (model_data_of fill_fraction wood efficiency burn_hours) MUSSON_MODELS"
  let ?en = "model_data_of fill_fraction wood efficiency burn_hours
               (Musson_2000, \<lparr>volume_l = 467, duct_count = 4, duct_diameter_mm = 159\<rparr>)"
  let ?res = "\<lparr>heat_loss_kw = 0,
                required_power_with_margin = 0 * 1.2,
                models = \<lparr>all_models_data = ?es,
                  recommended_model = Some Musson_2000,
                  best_model_avg_power =
                    model_avg_power fill_fraction wood efficiency burn_hours 467\<rparr>,
                cascade_option = None,
                refuel_time = Some (real_of_int \<lfloor>2 * burn_hours\<rfloor> / 2)\<rparr>"
  have run: "app area height material_type thickness_cm t_in t_out wood_type fill_fraction
                efficiency burn_hours = Inr ?res"
    by (rule no_heating_run [OF assms])
  have n: "0 \<le> \<lfloor>2 * burn_hours\<rfloor>" using assms(4) by simp
  have mem: "?en \<in> set ?es"
    by (simp add: MUSSON_MODELS_def)
  have name: "d_model ?en = Musson_2000"
    and avg: "d_avg_power ?en = model_avg_power fill_fraction wood efficiency burn_hours 467"
    and t: "d_time ?en = map (\<lambda>i. real_of_int i * 0.5) [0..\<lfloor>2 * burn_hours\<rfloor>]"
    by (simp_all add: model_data_of_def Let_def)
  have ne: "d_time ?en \<noteq> []"
    unfolding t by (simp add: upto_0_nonempty [OF n])
  have l: "last (d_time ?en) = real_of_int \<lfloor>2 * burn_hours\<rfloor> / 2"
    unfolding t by (rule grid_last [OF n])
  have top: "\<forall>e' \<in> set ?es. d_avg_power e' \<le> d_avg_power ?en"
    unfolding avg using largest_model_greatest [OF assms(2-5)] by blast
  have entry: "\<exists>e \<in> set ?es. d_model e = Musson_2000
         \<and> (\<forall>e' \<in> set ?es. d_avg_power e' \<le> d_avg_power e)
         \<and> d_time e \<noteq> [] \<and> Some (real_of_int \<lfloor>2 * burn_hours\<rfloor> / 2) = Some (last (d_time e))"
    using mem name top ne l by (intro bexI [of _ ?en]) simp_all
  show ?thesis
    apply (rule exI [of _ ?res])
    using run entry by auto
qed

theorem no_heating_needed_witness:
  "(20::real) \<le> 25 \<and> (0::real) < 0.8 \<and> (0::real) < 0.85 \<and> (0::real) < 8
   \<and> map_of WOOD_TYPES Khvoynye = Some \<lparr>density = 350, q_mj_kg = 17\<rparr>
   \<and> 2 * (8::real) = real_of_int \<lfloor>2 * (8::real)\<rfloor>
   \<and> (\<exists>res. app 100 2.5 Kirpich 40 20 25 Khvoynye 0.8 0.85 8 = Inr res
     \<and> heat_loss_kw res = 0 \<and> required_power_with_margin res = 0
     \<and> recommended_model (models res) = Some Musson_2000
     \<and> (\<exists>e \<in> set (all_models_data (models res)).
           d_model e = Musson_2000
         \<and> (\<forall>e' \<in> set (all_models_data (models res)). d_avg_power e' \<le> d_avg_power e)
         \<and> d_time e \<noteq> [] \<and> refuel_time res = Some (last (d_time e)))
     \<and> cascade_option res = None
     \<and> refuel_time res = Some 8)"
proof -
  have h: "(20::real) \<le> 25" "(0::real) < 0.8" "(0::real) < 0.85" "(0::real) < 8"
    by simp_all
  from no_heating_needed [OF h wood_Khvoynye, of 100 "2.5" Kirpich 40]
  obtain res where "app 100 2.5 Kirpich 40 20 25 Khvoynye 0.8 0.85 8 = Inr res"
     "heat_loss_kw res = 0" "required_power_with_margin res = 0"
     "recommended_model (models res) = Some Musson_2000"
     "\<exists>e \<in> set (all_models_data (models res)).
           d_model e = Musson_2000
         \<and> (\<forall>e' \<in> set (all_models_data (models res)). d_avg_power e' \<le> d_avg_power e)
         \<and> d_time e \<noteq> [] \<and> refuel_time res = Some (last (d_time e))"
     "cascade_option res = None"
     "2 * (8::real) = real_of_int \<lfloor>2 * (8::real)\<rfloor> \<longrightarrow> refuel_time res = Some 8"
    by blast
  moreover have "2 * (8::real) = real_of_int \<lfloor>2 * (8::real)\<rfloor>" by simp
  ultimately show ?thesis
    using h wood_Khvoynye by blast
qed

text \<open>
  Claim C10 as stated fails for a burn duration of 0.75 h with \<open>t_in = 20\<close> and
  \<open>t_out = 25\<close>: a model is recommended and the refuel time is 0.5 h, the last sample
  time, not the burn duration.
\<close>

theorem off_grid_duration_counterexample:
  "(20::real) \<le> 25 \<and> (0::real) < 0.75
   \<and> (\<exists>res. app 100 2.5 Kirpich 40 20 25 Khvoynye 0.8 0.85 0.75 = Inr res
         \<and> recommended_model (models res) = Some Musson_2000
         \<and> refuel_time res = Some 0.5)
   \<and> (0.5::real) \<noteq> 0.75"
proof -
  have h: "(20::real) \<le> 25" "(0::real) < 0.8" "(0::real) < 0.85" "(0::real) < 0.75"
    by simp_all
  have "\<exists>res. app 100 2.5 Kirpich 40 20 25 Khvoynye 0.8 0.85 0.75 = Inr res
         \<and> recommended_model (models res) = Some Musson_2000
         \<and> refuel_time res = Some 0.5"
    by (rule exI, rule conjI, rule no_heating_run [OF h wood_Khvoynye]) simp
  then show ?thesis by simp
qed

end
